theory Spec2Isabelle
  imports Complex_Main "HOL-Library.Sublist"
begin

section \<open>The realtime connection client (src/GameFrontend/src/api/wsClient.js)\<close>

text \<open>
  The module keeps one connection manager in module-level variables. The model is a
  record of those variables, each exported operation and each callback is a function on
  that record, and every call of \<^verbatim>\<open>emitter.emit\<close> by the manager is recorded in a
  trace. The dispatch to subscribed handlers is modelled on its own (\<open>emit\<close> below);
  in the model of the manager a handler does not call back into the module while an
  operation runs.

  JavaScript strings are modelled as \<^typ>\<open>string\<close> (code units below 256), numbers that
  hold counts as \<^typ>\<open>nat\<close>, timestamps as \<^typ>\<open>int\<close> and the numbers of the backoff
  computation as \<^typ>\<open>real\<close> (IEEE rounding is not modelled).
\<close>

subsection \<open>Constants: \<^verbatim>\<open>DEFAULTS\<close>\<close>

definition heartbeatIntervalMs :: int where "heartbeatIntervalMs = 15000"
definition staleThresholdMs :: int where "staleThresholdMs = 45000"
definition reconnectInitialMs :: real where "reconnectInitialMs = 500"
definition reconnectMaxMs :: real where "reconnectMaxMs = 20000"
definition reconnectJitterRatio :: real where "reconnectJitterRatio = 25 / 100"
definition maxQueueSize :: nat where "maxQueueSize = 200"

subsection \<open>String helpers and destination resolution\<close>

text \<open>\<^verbatim>\<open>String.prototype.trim\<close> removes white space and line terminators at both ends;
  below code unit 256 these are TAB, LF, VT, FF, CR, SPACE and NBSP.\<close>

definition isWhite :: "char \<Rightarrow> bool" where
  "isWhite c = (of_char c \<in> {9, 10, 11, 12, 13, 32, 160 :: nat})"

definition trim :: "string \<Rightarrow> string" where
  "trim s = rev (dropWhile isWhite (rev (dropWhile isWhite s)))"

text \<open>\<^verbatim>\<open>safeTrim(s)\<close>: a value that is not a string (here \<open>None\<close>) gives the empty string.\<close>

definition safeTrim :: "string option \<Rightarrow> string" where
  "safeTrim s = (case s of Some str \<Rightarrow> trim str | None \<Rightarrow> [])"

definition startsWith :: "string \<Rightarrow> string \<Rightarrow> bool" where
  "startsWith s p = (take (length p) s = p)"

text \<open>\<^verbatim>\<open>.replace(/\/+$/, "")\<close>: drop every slash at the end.\<close>

definition stripTrailingSlashes :: "string \<Rightarrow> string" where
  "stripTrailingSlashes s = rev (dropWhile (\<lambda>c. c = CHR ''/'') (rev s))"

definition charCode :: "char \<Rightarrow> nat" where
  "charCode c = of_char c"

definition isDigit :: "char \<Rightarrow> bool" where
  "isDigit c = (48 \<le> charCode c \<and> charCode c \<le> 57)"

text \<open>The class \<^verbatim>\<open>[\w.-]\<close>: letters, digits, underscore, dot and hyphen.\<close>

definition isHostChar :: "char \<Rightarrow> bool" where
  "isHostChar c = ((97 \<le> charCode c \<and> charCode c \<le> 122) \<or> (65 \<le> charCode c \<and> charCode c \<le> 90)
     \<or> isDigit c \<or> c = CHR ''_'' \<or> c = CHR ''.'' \<or> c = CHR ''-'')"

text \<open>\<^verbatim>\<open>/^[\w.-]+(?::\d+)?$/i.test(raw)\<close>: a non-empty run of host characters, then
  nothing, or a colon and a non-empty run of digits.\<close>

definition isBareHostPort :: "string \<Rightarrow> bool" where
  "isBareHostPort raw =
     (let h = takeWhile isHostChar raw; r = dropWhile isHostChar raw
      in h \<noteq> [] \<and> (case r of [] \<Rightarrow> True
                      | c # ds \<Rightarrow> c = CHR '':'' \<and> ds \<noteq> [] \<and> list_all isDigit ds))"

text \<open>What the module reads from its surroundings: the build-time variable
  \<^verbatim>\<open>process.env.REACT_APP_WS_URL\<close>, the \<^verbatim>\<open>window\<close> object, and the platform
  functions it calls.\<close>

record location =
  protocol :: string
  host :: string

record window =
  location :: "location option"
  hasWebSocket :: bool

datatype exn = Exn string

datatype json = JNull | JBool bool | JNum int | JStr string | JArr "json list"
  | JObj "(string \<times> json) list"

text \<open>\<^verbatim>\<open>constructorThrows\<close> says for which address \<^verbatim>\<open>new WebSocket(url, protocols)\<close>
  throws, \<^verbatim>\<open>sendThrows\<close> for which frame the \<^verbatim>\<open>send\<close> of an open socket throws (the
  case that \<^verbatim>\<open>sendFrame\<close> catches), \<^verbatim>\<open>JSON_parse\<close> is \<^verbatim>\<open>JSON.parse\<close> with \<open>None\<close>
  where it throws.\<close>

record env =
  REACT_APP_WS_URL :: "string option"
  windowObj :: "window option"
  constructorThrows :: "string \<Rightarrow> exn option"
  sendThrows :: "string \<Rightarrow> exn option"
  JSON_parse :: "string \<Rightarrow> json option"

definition hasWebSocketSupport :: "env \<Rightarrow> bool" where
  "hasWebSocketSupport e = (case windowObj e of None \<Rightarrow> False | Some w \<Rightarrow> hasWebSocket w)"

definition resolveWsBaseUrlFromEnv :: "env \<Rightarrow> string" where
  "resolveWsBaseUrlFromEnv e =
     (let raw = safeTrim (REACT_APP_WS_URL e) in
      if raw \<noteq> [] then
        (if startsWith raw ''ws://'' \<or> startsWith raw ''wss://'' then stripTrailingSlashes raw
         else if startsWith raw ''http://''
           then stripTrailingSlashes (''ws://'' @ drop (length ''http://'') raw)
         else if startsWith raw ''https://''
           then stripTrailingSlashes (''wss://'' @ drop (length ''https://'') raw)
         else if isBareHostPort raw then stripTrailingSlashes (''ws://'' @ raw)
         else stripTrailingSlashes raw)
      else
        (case windowObj e of
           None \<Rightarrow> []
         | Some w \<Rightarrow>
             (case location w of
                None \<Rightarrow> []
              | Some l \<Rightarrow>
                  if protocol l \<noteq> [] then
                    (let proto = (if protocol l = ''https:'' then ''wss:'' else ''ws:'');
                         h = host l
                     in if h \<noteq> [] then stripTrailingSlashes (proto @ ''//'' @ h) else [])
                  else [])))"

definition joinUrl :: "string \<Rightarrow> string \<Rightarrow> string" where
  "joinUrl base pth =
     (let b = stripTrailingSlashes (trim base); p = trim pth in
      if b = [] then [] else if p = [] then b
      else b @ (if startsWith p ''/'' then [] else ''/'') @ p)"

subsection \<open>Backoff jitter\<close>

text \<open>\<^verbatim>\<open>jitterDelay(ms, jitterRatio)\<close>; the third argument is the value that
  \<^verbatim>\<open>Math.random()\<close> returns, a number in \<open>[0, 1)\<close>. \<^verbatim>\<open>Math.round\<close> rounds halves
  up, as \<^const>\<open>round\<close> does.\<close>

definition jitterDelay :: "real \<Rightarrow> real \<Rightarrow> real \<Rightarrow> int" where
  "jitterDelay ms jitterRatio rnd =
     (let ratio = max 0 (min 1 jitterRatio);
          delta = ms * ratio;
          lo = ms - delta;
          hi = ms + delta
      in max 0 (round (lo + rnd * (hi - lo))))"

definition backoffBase :: "nat \<Rightarrow> real" where
  "backoffBase attempt = min reconnectMaxMs (reconnectInitialMs * 2 ^ attempt)"

subsection \<open>Abrupt completion\<close>

text \<open>A computation on a state either returns (\<open>Inr\<close> the new state) or throws
  (\<open>Inl\<close> the thrown value and the state it leaves behind).\<close>

type_synonym 's completion = "(exn \<times> 's) + 's"

definition andThen :: "'s completion \<Rightarrow> ('s \<Rightarrow> 's completion) \<Rightarrow> 's completion" where
  "andThen c f = (case c of Inl x \<Rightarrow> Inl x | Inr s \<Rightarrow> f s)"

text \<open>\<^verbatim>\<open>try { body } catch (e) { handler }\<close>\<close>

definition tryCatch :: "'s completion \<Rightarrow> (exn \<Rightarrow> 's \<Rightarrow> 's completion) \<Rightarrow> 's completion" where
  "tryCatch body handler = (case body of Inl (e, s) \<Rightarrow> handler e s | Inr s \<Rightarrow> Inr s)"

subsection \<open>Event registry: \<^verbatim>\<open>createEmitter\<close>\<close>

text \<open>
  \<^verbatim>\<open>handlers\<close> is a \<^verbatim>\<open>Map\<close> from event names to \<^verbatim>\<open>Set\<close>s of functions. A handler is
  named by a number; a \<^verbatim>\<open>Set\<close> is the list of its members in insertion order, which is
  the order of iteration. What a handler does when it is called is given by a table of
  bodies: calls of \<^verbatim>\<open>on\<close> and \<^verbatim>\<open>off\<close> (or of an unsubscribe function returned by
  \<^verbatim>\<open>on\<close>) in sequence, and then a normal return or a throw. \<^verbatim>\<open>clearAll\<close> is never
  called by the module and is not reachable from outside.
\<close>

type_synonym registry = "string \<Rightarrow> nat list option"

datatype handlerCall = CallOn string nat | CallOff string nat

record handlerBody =
  registryCalls :: "handlerCall list"
  thrown :: "exn option"

record 'p emitter =
  handlers :: registry
  calls :: "(nat \<times> 'p) list"
  warnings :: "(string \<times> exn) list"

definition setAdd :: "nat \<Rightarrow> nat list \<Rightarrow> nat list" where
  "setAdd h hs = (if h \<in> set hs then hs else hs @ [h])"

definition setDelete :: "nat \<Rightarrow> nat list \<Rightarrow> nat list" where
  "setDelete h hs = filter (\<lambda>x. x \<noteq> h) hs"

definition getSet :: "string \<Rightarrow> registry \<Rightarrow> registry" where
  "getSet name r = (case r name of None \<Rightarrow> r(name \<mapsto> []) | Some hs \<Rightarrow> r)"

definition on :: "string \<Rightarrow> nat \<Rightarrow> registry \<Rightarrow> registry" where
  "on eventName handler r =
     (let r1 = getSet eventName r in
      case r1 eventName of None \<Rightarrow> r1 | Some hs \<Rightarrow> r1(eventName \<mapsto> setAdd handler hs))"

definition off :: "string \<Rightarrow> nat \<Rightarrow> registry \<Rightarrow> registry" where
  "off eventName handler r =
     (case r eventName of None \<Rightarrow> r | Some hs \<Rightarrow> r(eventName \<mapsto> setDelete handler hs))"

fun runCall :: "handlerCall \<Rightarrow> registry \<Rightarrow> registry" where
  "runCall (CallOn name h) r = on name h r"
| "runCall (CallOff name h) r = off name h r"

text \<open>\<^verbatim>\<open>fn(payload)\<close>: the call is logged, the body changes the registry, and the call
  returns or throws.\<close>

definition callHandler ::
  "(nat \<Rightarrow> 'p \<Rightarrow> handlerBody) \<Rightarrow> nat \<Rightarrow> 'p \<Rightarrow> 'p emitter \<Rightarrow> 'p emitter completion" where
  "callHandler bodies fn payload s =
     (let b = bodies fn payload;
          s1 = s\<lparr>calls := calls s @ [(fn, payload)],
                 handlers := fold runCall (registryCalls b) (handlers s)\<rparr>
      in case thrown b of None \<Rightarrow> Inr s1 | Some e \<Rightarrow> Inl (e, s1))"

text \<open>The loop \<^verbatim>\<open>[...s].forEach((fn) => { try { fn(payload) } catch (e) { console.warn(...) } })\<close>
  over the copied array.\<close>

fun forEachHandler ::
  "(nat \<Rightarrow> 'p \<Rightarrow> handlerBody) \<Rightarrow> string \<Rightarrow> 'p \<Rightarrow> nat list \<Rightarrow> 'p emitter \<Rightarrow> 'p emitter completion" where
  "forEachHandler bodies eventName payload [] s = Inr s"
| "forEachHandler bodies eventName payload (fn # fns) s =
     andThen
       (tryCatch (callHandler bodies fn payload s)
          (\<lambda>e s1. Inr (s1\<lparr>warnings := warnings s1 @ [(eventName, e)]\<rparr>)))
       (forEachHandler bodies eventName payload fns)"

definition emit ::
  "(nat \<Rightarrow> 'p \<Rightarrow> handlerBody) \<Rightarrow> string \<Rightarrow> 'p \<Rightarrow> 'p emitter \<Rightarrow> 'p emitter completion" where
  "emit bodies eventName payload s =
     (case handlers s eventName of
        None \<Rightarrow> Inr s
      | Some hs \<Rightarrow>
          if length hs = 0 then Inr s
          else (let copy = hs in forEachHandler bodies eventName payload copy s))"

subsection \<open>Transports\<close>

text \<open>
  The real transport is the platform's \<^verbatim>\<open>WebSocket\<close>. The record holds what the module
  can see or cause: the address and subprotocols it was constructed with, \<^verbatim>\<open>readyState\<close>
  (0 CONNECTING, 1 OPEN, 2 CLOSING, 3 CLOSED), the frames \<^verbatim>\<open>send\<close> accepted and the
  calls of \<^verbatim>\<open>close\<close>. As the platform's socket does, \<^verbatim>\<open>close\<close> moves a socket that is
  not yet closing to CLOSING and returns; the close callback comes later, as a step of
  its own. Whether \<^verbatim>\<open>send\<close> throws on a frame is a parameter (\<open>sendThrows\<close>): the
  module catches that exception, so the model has to produce it.
\<close>

record WebSocket =
  url :: string
  protocolsArg :: "string list option"
  readyState :: nat
  sent :: "string list"
  closeCalls :: "(nat \<times> string) list"

definition WebSocket_OPEN :: nat where "WebSocket_OPEN = 1"

definition wsSend :: "env \<Rightarrow> WebSocket \<Rightarrow> string \<Rightarrow> exn + WebSocket" where
  "wsSend e w frame =
     (case sendThrows e frame of Some x \<Rightarrow> Inl x | None \<Rightarrow> Inr (w\<lparr>sent := sent w @ [frame]\<rparr>))"

definition wsClose :: "WebSocket \<Rightarrow> nat \<Rightarrow> string \<Rightarrow> WebSocket" where
  "wsClose w code rsn =
     w\<lparr>readyState := (if readyState w < 2 then 2 else readyState w),
       closeCalls := closeCalls w @ [(code, rsn)]\<rparr>"

datatype ConnectionState = StIdle | StMock | StConnecting | StOpen | StClosing | StClosed | StError

datatype errorMessage = FailedToSendFrame | FailedToSerialize | FailedToConstruct
  | WebSocketError | StaleConnection int

text \<open>The calls of \<^verbatim>\<open>emitter.emit\<close>: the event name and what the payload holds.\<close>

datatype event =
    StatusEvent ConnectionState "string option" bool
  | OpenEvent "string option" "string list option" bool
  | CloseEvent nat string bool bool
  | ErrorEvent errorMessage "exn option" bool
  | MessageEvent string bool
  | AppEvent string "json option"

text \<open>\<^verbatim>\<open>createMockSocket\<close>: the two flags of the closure, whether the 10 ms timeout that
  opens it is still pending, and the payloads of the pending 0 ms echo timeouts, oldest
  first.\<close>

record MockSocket =
  mockOpen :: bool
  mockClosed :: bool
  openTimerPending :: bool
  echoTimers :: "string list"

definition createMockSocket :: MockSocket where
  "createMockSocket = \<lparr>mockOpen = False, mockClosed = False, openTimerPending = True, echoTimers = []\<rparr>"

definition mockReadyState :: "MockSocket \<Rightarrow> nat" where
  "mockReadyState m = (if mockClosed m then 3 else if mockOpen m then 1 else 0)"

text \<open>\<^verbatim>\<open>close()\<close> of the mock: the socket after the call and the events it emits.\<close>

definition mockCloseCall :: "MockSocket \<Rightarrow> MockSocket \<times> event list" where
  "mockCloseCall m =
     (if mockClosed m then (m, [])
      else (m\<lparr>mockClosed := True, openTimerPending := False, mockOpen := False\<rparr>,
            if mockOpen m then [CloseEvent 1000 ''mock closed'' True True] else []))"

definition mockSendCall :: "MockSocket \<Rightarrow> string \<Rightarrow> MockSocket" where
  "mockSendCall m payload =
     (if \<not> mockOpen m \<or> mockClosed m then m else m\<lparr>echoTimers := echoTimers m @ [payload]\<rparr>)"

subsection \<open>The connection manager's state\<close>

record ConnectOptions =
  path :: "string option"
  protocols :: "string list option"
  autoReconnect :: "bool option"

text \<open>The variable \<^verbatim>\<open>reconnectTimer\<close> keeps the identifier of a timeout after it has
  fired; \<open>pending\<close> says whether the timeout is still to fire.\<close>

record ReconnectTimer =
  delay :: int
  reason :: string
  pending :: bool

record client =
  ws :: "WebSocket option"
  mockWs :: "MockSocket option"
  state :: ConnectionState
  connectOptions :: ConnectOptions
  lastUrl :: string
  shouldReconnect :: bool
  reconnectAttempt :: nat
  reconnectTimer :: "ReconnectTimer option"
  heartbeatTimer :: bool
  lastInboundAt :: int
  lastOpenAt :: int
  explicitlyDisconnected :: bool
  outboundQueue :: "string list"
  emitted :: "event list"

definition initialClient :: client where
  "initialClient =
     \<lparr>ws = None, mockWs = None, state = StIdle,
      connectOptions = \<lparr>path = None, protocols = None, autoReconnect = None\<rparr>,
      lastUrl = [], shouldReconnect = True, reconnectAttempt = 0, reconnectTimer = None,
      heartbeatTimer = False, lastInboundAt = 0, lastOpenAt = 0,
      explicitlyDisconnected = False, outboundQueue = [], emitted = []\<rparr>"

text \<open>What \<^verbatim>\<open>Date.now()\<close> and \<^verbatim>\<open>Math.random()\<close> return during one step.\<close>

record tick =
  now :: int
  rand :: real

definition emitterEmit :: "event \<Rightarrow> client \<Rightarrow> client" where
  "emitterEmit ev s = s\<lparr>emitted := emitted s @ [ev]\<rparr>"

text \<open>\<^verbatim>\<open>lastUrl || null\<close>\<close>

definition orNull :: "string \<Rightarrow> string option" where
  "orNull str = (if str = [] then None else Some str)"

definition emitStatus :: "bool \<Rightarrow> client \<Rightarrow> client" where
  "emitStatus isMock s = emitterEmit (StatusEvent (state s) (orNull (lastUrl s)) isMock) s"

subsection \<open>Outbound queue: \<^verbatim>\<open>sendFrame\<close>, \<^verbatim>\<open>flushQueue\<close>, \<^verbatim>\<open>send\<close>\<close>

definition transportIsOpen :: "client \<Rightarrow> bool" where
  "transportIsOpen s =
     ((case ws s of Some w \<Rightarrow> readyState w = WebSocket_OPEN | None \<Rightarrow> False)
      \<or> (case mockWs s of Some m \<Rightarrow> mockReadyState m = 1 | None \<Rightarrow> False))"

text \<open>\<^verbatim>\<open>xs.slice(-n)\<close> for \<open>n > 0\<close>: the last \<open>n\<close> elements, all of them when there are
  fewer.\<close>

definition sliceLast :: "nat \<Rightarrow> 'a list \<Rightarrow> 'a list" where
  "sliceLast n xs = drop (length xs - n) xs"

text \<open>\<^verbatim>\<open>Math.floor(DEFAULTS.maxQueueSize * 0.8)\<close>\<close>

definition keptOnOverflow :: nat where
  "keptOnOverflow = nat \<lfloor>real maxQueueSize * (8 / 10)\<rfloor>"

text \<open>The body of the \<^verbatim>\<open>try\<close> in \<^verbatim>\<open>sendFrame\<close>.\<close>

definition transmit :: "env \<Rightarrow> string \<Rightarrow> client \<Rightarrow> client completion" where
  "transmit e frame s =
     (case ws s of
        Some w \<Rightarrow> (case wsSend e w frame of
                     Inl x \<Rightarrow> Inl (x, s)
                   | Inr w1 \<Rightarrow> Inr (s\<lparr>ws := Some w1\<rparr>))
      | None \<Rightarrow> (case mockWs s of
                   Some m \<Rightarrow> Inr (s\<lparr>mockWs := Some (mockSendCall m frame)\<rparr>)
                 | None \<Rightarrow> Inr s))"

text \<open>\<^verbatim>\<open>sendFrame(frame)\<close>; \<open>None\<close> is a value that is not a string.\<close>

definition sendFrame :: "env \<Rightarrow> string option \<Rightarrow> client \<Rightarrow> client completion" where
  "sendFrame e frame s =
     (case frame of
        None \<Rightarrow> Inr s
      | Some f \<Rightarrow>
          if \<not> transportIsOpen s then
            (let q = (if length (outboundQueue s) \<ge> maxQueueSize
                      then sliceLast keptOnOverflow (outboundQueue s) else outboundQueue s)
             in Inr (s\<lparr>outboundQueue := q @ [f]\<rparr>))
          else
            tryCatch (transmit e f s)
              (\<lambda>x s1. Inr (emitterEmit (ErrorEvent FailedToSendFrame (Some x) (mockWs s1 \<noteq> None))
                             (s1\<lparr>outboundQueue := outboundQueue s1 @ [f]\<rparr>))))"

fun forEachFrame :: "env \<Rightarrow> string list \<Rightarrow> client \<Rightarrow> client completion" where
  "forEachFrame e [] s = Inr s"
| "forEachFrame e (f # fs) s = andThen (sendFrame e (Some f) s) (forEachFrame e fs)"

definition flushQueue :: "env \<Rightarrow> client \<Rightarrow> client completion" where
  "flushQueue e s =
     (if length (outboundQueue s) = 0 then Inr s
      else (let frames = outboundQueue s in forEachFrame e frames (s\<lparr>outboundQueue := []\<rparr>)))"

text \<open>The argument of \<^verbatim>\<open>send\<close>. An object is given by what \<^verbatim>\<open>JSON.stringify\<close> does with
  it: it throws, or returns a string, or returns \<^verbatim>\<open>undefined\<close>. \<open>MOther\<close> is a number, a
  boolean, a function, a symbol or a bigint.\<close>

datatype message = MNull | MUndefined | MString string | MObject "exn + string option" | MOther

definition send :: "env \<Rightarrow> message \<Rightarrow> client \<Rightarrow> client completion" where
  "send e msg s =
     (case msg of
        MNull \<Rightarrow> Inr s
      | MUndefined \<Rightarrow> Inr s
      | MString str \<Rightarrow> sendFrame e (Some str) s
      | MObject r \<Rightarrow>
          tryCatch (case r of Inl x \<Rightarrow> Inl (x, s) | Inr frame \<Rightarrow> sendFrame e frame s)
            (\<lambda>x s1. Inr (emitterEmit (ErrorEvent FailedToSerialize (Some x) (mockWs s1 \<noteq> None)) s1))
      | MOther \<Rightarrow> Inr s)"

subsection \<open>Timers: heartbeat and reconnect\<close>

definition clearReconnectTimer :: "client \<Rightarrow> client" where
  "clearReconnectTimer s =
     (case reconnectTimer s of Some tm \<Rightarrow> s\<lparr>reconnectTimer := None\<rparr> | None \<Rightarrow> s)"

definition clearHeartbeatTimer :: "client \<Rightarrow> client" where
  "clearHeartbeatTimer s = (if heartbeatTimer s then s\<lparr>heartbeatTimer := False\<rparr> else s)"

text \<open>Decimal digits of a number, for the text of the probe frame.\<close>

definition digitChar :: "nat \<Rightarrow> char" where
  "digitChar d = ''0123456789'' ! d"

fun digitsOf :: "nat \<Rightarrow> string" where
  "digitsOf n = (if n < 10 then [digitChar n]
                 else digitsOf (n div 10) @ [digitChar (n mod 10)])"

declare digitsOf.simps [simp del]

text \<open>\<^verbatim>\<open>JSON.stringify({ type: "ping", t })\<close>\<close>

definition pingFrame :: "int \<Rightarrow> string" where
  "pingFrame t = ''{\"type\":\"ping\",\"t\":''
                 @ (if t < 0 then ''-'' @ digitsOf (nat (- t)) else digitsOf (nat t)) @ ''}''"

text \<open>\<^verbatim>\<open>startHeartbeat()\<close> arms the interval; \<open>heartbeatCallback\<close> is the function it
  runs at each tick.\<close>

definition startHeartbeat :: "tick \<Rightarrow> client \<Rightarrow> client" where
  "startHeartbeat tk s = (clearHeartbeatTimer s)\<lparr>lastInboundAt := now tk, heartbeatTimer := True\<rparr>"

definition heartbeatCallback :: "env \<Rightarrow> tick \<Rightarrow> client \<Rightarrow> client completion" where
  "heartbeatCallback e tk s =
     (let t = now tk;
          isOpen = (case ws s of Some w \<Rightarrow> readyState w = WebSocket_OPEN | None \<Rightarrow> False)
      in if isOpen then
           (let staleFor = t - lastInboundAt s in
            andThen (sendFrame e (Some (pingFrame t)) s)
              (\<lambda>s1. if staleFor > staleThresholdMs then
                       (let s2 = emitterEmit (ErrorEvent (StaleConnection staleFor) None False) s1
                        in Inr (case ws s2 of
                                  Some w \<Rightarrow> s2\<lparr>ws := Some (wsClose w 4000 ''stale'')\<rparr>
                                | None \<Rightarrow> s2))
                     else Inr s1))
         else Inr s)"

definition scheduleReconnect :: "tick \<Rightarrow> string \<Rightarrow> client \<Rightarrow> client" where
  "scheduleReconnect tk rsn s =
     (if \<not> shouldReconnect s \<or> explicitlyDisconnected s then s
      else (let s1 = clearReconnectTimer s;
                attempt = reconnectAttempt s1;
                base = min reconnectMaxMs (reconnectInitialMs * 2 ^ attempt);
                d = jitterDelay base reconnectJitterRatio (rand tk)
            in s1\<lparr>reconnectTimer := Some \<lparr>delay = d, reason = rsn, pending = True\<rparr>\<rparr>))"

subsection \<open>Connecting and disconnecting\<close>

text \<open>\<^verbatim>\<open>cleanupSocketRefs()\<close>: the four callbacks of the socket are set to \<^verbatim>\<open>null\<close> and
  the reference is dropped, so no callback of that socket runs again; the mock is closed
  and dropped, so each of its timeouts is cancelled or returns at once.\<close>

definition cleanupSocketRefs :: "client \<Rightarrow> client" where
  "cleanupSocketRefs s =
     (let s1 = s\<lparr>ws := None\<rparr>;
          s2 = (case mockWs s1 of
                  Some m \<Rightarrow> (let (m1, evs) = mockCloseCall m
                             in (fold emitterEmit evs s1)\<lparr>mockWs := Some m1\<rparr>)
                | None \<Rightarrow> s1)
      in s2\<lparr>mockWs := None\<rparr>)"

definition internalConnect :: "env \<Rightarrow> tick \<Rightarrow> ConnectOptions \<Rightarrow> client \<Rightarrow> client" where
  "internalConnect e tk options s0 =
     (let s = s0\<lparr>connectOptions := options, explicitlyDisconnected := False\<rparr>;
          baseUrl = resolveWsBaseUrlFromEnv e;
          u = joinUrl baseUrl (case path (connectOptions s) of Some p \<Rightarrow> p | None \<Rightarrow> []);
          s = s\<lparr>lastUrl := u\<rparr>;
          hasConfiguredUrl = (safeTrim (REACT_APP_WS_URL e) \<noteq> []);
          canUseReal = (hasWebSocketSupport e \<and> u \<noteq> [])
      in if \<not> canUseReal \<or> \<not> hasConfiguredUrl then
           (let s = s\<lparr>state := StMock, shouldReconnect := False, reconnectAttempt := 0\<rparr>;
                s = clearReconnectTimer s;
                s = clearHeartbeatTimer s;
                s = cleanupSocketRefs s;
                s = s\<lparr>mockWs := Some createMockSocket\<rparr>
            in emitStatus True s)
         else if \<not> hasWebSocketSupport e then
           emitStatus False (s\<lparr>state := StIdle, shouldReconnect := False\<rparr>)
         else
           (let s = s\<lparr>shouldReconnect := (case autoReconnect options of Some b \<Rightarrow> b | None \<Rightarrow> True)\<rparr>;
                s = emitStatus False (s\<lparr>state := StConnecting\<rparr>);
                s = cleanupSocketRefs s;
                s = clearHeartbeatTimer s
            in case constructorThrows e u of
                 Some x \<Rightarrow>
                   (let s = emitStatus False (s\<lparr>state := StError\<rparr>);
                        s = emitterEmit (ErrorEvent FailedToConstruct (Some x) False) s
                    in scheduleReconnect tk ''constructor_failed'' s)
               | None \<Rightarrow>
                   s\<lparr>ws := Some \<lparr>url = u, protocolsArg = protocols options, readyState = 0,
                                 sent = [], closeCalls = []\<rparr>\<rparr>))"

definition connect :: "env \<Rightarrow> tick \<Rightarrow> ConnectOptions \<Rightarrow> client \<Rightarrow> client" where
  "connect e tk options s =
     (let s1 = clearReconnectTimer s;
          s2 = s1\<lparr>connectOptions := options, explicitlyDisconnected := False\<rparr>
      in internalConnect e tk (connectOptions s2) s2)"

definition disconnect :: "client \<Rightarrow> client" where
  "disconnect s0 =
     (let s = s0\<lparr>explicitlyDisconnected := True, shouldReconnect := False\<rparr>;
          s = clearReconnectTimer s;
          s = clearHeartbeatTimer s;
          s = s\<lparr>state := StClosing\<rparr>;
          s = emitStatus (mockWs s \<noteq> None) s;
          s = (case ws s of
                 Some w \<Rightarrow> s\<lparr>ws := Some (wsClose w 1000 ''client_disconnect'')\<rparr>
               | None \<Rightarrow> s);
          s = (case mockWs s of
                 Some m \<Rightarrow> (let (m1, evs) = mockCloseCall m
                            in (fold emitterEmit evs s)\<lparr>mockWs := Some m1\<rparr>)
               | None \<Rightarrow> s);
          s = cleanupSocketRefs s;
          s = s\<lparr>state := StClosed\<rparr>
      in emitStatus (mockWs s \<noteq> None) s)"

subsection \<open>Callbacks of the real socket\<close>

text \<open>Each callback is a closure made by \<^verbatim>\<open>internalConnect\<close> for the socket in \<^verbatim>\<open>ws\<close>;
  its \<^verbatim>\<open>url\<close> and \<^verbatim>\<open>options.protocols\<close> are those the socket was constructed with.\<close>

definition ws_onopen :: "env \<Rightarrow> tick \<Rightarrow> WebSocket \<Rightarrow> client \<Rightarrow> client completion" where
  "ws_onopen e tk w s0 =
     (let s = s0\<lparr>state := StOpen, reconnectAttempt := 0, lastOpenAt := now tk, lastInboundAt := now tk\<rparr>;
          s = emitStatus False s;
          s = emitterEmit (OpenEvent (Some (url w)) (protocolsArg w) False) s;
          s = startHeartbeat tk s
      in flushQueue e s)"

record closeEvent =
  code :: "nat option"
  closeReason :: "string option"
  wasClean :: bool

definition ws_onclose :: "tick \<Rightarrow> closeEvent option \<Rightarrow> client \<Rightarrow> client" where
  "ws_onclose tk ev s0 =
     (let s = clearHeartbeatTimer s0;
          isExplicit = explicitlyDisconnected s;
          s = s\<lparr>state := StClosed\<rparr>;
          s = emitStatus False s;
          s = emitterEmit
                (CloseEvent
                   (case ev of Some c \<Rightarrow> (case code c of Some n \<Rightarrow> n | None \<Rightarrow> 1006) | None \<Rightarrow> 1006)
                   (case ev of Some c \<Rightarrow> (case closeReason c of Some r \<Rightarrow> r | None \<Rightarrow> []) | None \<Rightarrow> [])
                   (case ev of Some c \<Rightarrow> wasClean c | None \<Rightarrow> False)
                   False) s
      in if \<not> isExplicit \<and> shouldReconnect s then scheduleReconnect tk ''close'' s else s)"

definition ws_onerror :: "tick \<Rightarrow> exn option \<Rightarrow> client \<Rightarrow> client" where
  "ws_onerror tk ev s0 =
     (let s = s0\<lparr>state := StError\<rparr>;
          s = emitStatus False s;
          s = emitterEmit (ErrorEvent WebSocketError ev False) s
      in scheduleReconnect tk ''error'' s)"

text \<open>\<^verbatim>\<open>parsed.event\<close> and \<^verbatim>\<open>parsed.data\<close> of a parsed frame.\<close>

definition jsonField :: "json \<Rightarrow> string \<Rightarrow> json option" where
  "jsonField j k = (case j of JObj kvs \<Rightarrow> map_of kvs k | _ \<Rightarrow> None)"

definition jsonIsObject :: "json \<Rightarrow> bool" where
  "jsonIsObject j = (case j of JObj kvs \<Rightarrow> True | JArr xs \<Rightarrow> True | _ \<Rightarrow> False)"

definition ws_onmessage :: "env \<Rightarrow> tick \<Rightarrow> string \<Rightarrow> client \<Rightarrow> client" where
  "ws_onmessage e tk raw s0 =
     (let s = s0\<lparr>lastInboundAt := now tk\<rparr>;
          dat = raw;
          s = emitterEmit (MessageEvent dat False) s
      in case JSON_parse e dat of
           None \<Rightarrow> s
         | Some parsed \<Rightarrow>
             if jsonIsObject parsed then
               (let evtName = safeTrim (case jsonField parsed ''event'' of
                                          Some (JStr n) \<Rightarrow> Some n | _ \<Rightarrow> None)
                in if evtName \<noteq> [] then emitterEmit (AppEvent evtName (jsonField parsed ''data'')) s
                   else s)
             else s)"

subsection \<open>Steps of the event loop\<close>

text \<open>
  Every operation runs to completion within one turn of the event loop. A step is a call
  of an exported function, a timeout or interval that fires, or a callback of the
  attached socket. A timer that is not pending and a callback of a socket that is not
  attached cannot run: the step leaves the state as it is. The transport sets
  \<^verbatim>\<open>readyState\<close> to OPEN before it calls \<^verbatim>\<open>onopen\<close> and to CLOSED before it calls
  \<^verbatim>\<open>onclose\<close>.
\<close>

datatype action =
    Connect ConnectOptions
  | Disconnect
  | Send message
  | MockOpenTimeout
  | MockEchoTimeout
  | ReconnectTimeout
  | HeartbeatInterval
  | SocketOpen
  | SocketClose "closeEvent option"
  | SocketError "exn option"
  | SocketMessage string

text \<open>The 10 ms timeout of \<^verbatim>\<open>createMockSocket\<close>.\<close>

definition mockOpenTimeout :: "client \<Rightarrow> client" where
  "mockOpenTimeout s =
     (case mockWs s of
        None \<Rightarrow> s
      | Some m \<Rightarrow>
          if \<not> openTimerPending m then s
          else (let m1 = m\<lparr>openTimerPending := False\<rparr> in
                if mockClosed m1 then s\<lparr>mockWs := Some m1\<rparr>
                else emitterEmit (OpenEvent None None True) (s\<lparr>mockWs := Some (m1\<lparr>mockOpen := True\<rparr>)\<rparr>)))"

text \<open>The oldest pending 0 ms timeout of the mock's \<^verbatim>\<open>send\<close>.\<close>

definition mockEchoTimeout :: "client \<Rightarrow> client" where
  "mockEchoTimeout s =
     (case mockWs s of
        None \<Rightarrow> s
      | Some m \<Rightarrow>
          (case echoTimers m of
             [] \<Rightarrow> s
           | payload # rest \<Rightarrow>
               (let s1 = s\<lparr>mockWs := Some (m\<lparr>echoTimers := rest\<rparr>)\<rparr> in
                if \<not> mockOpen m \<or> mockClosed m then s1
                else emitterEmit (MessageEvent payload True) s1)))"

text \<open>The timeout armed by \<^verbatim>\<open>scheduleReconnect\<close>.\<close>

definition reconnectTimeout :: "env \<Rightarrow> tick \<Rightarrow> client \<Rightarrow> client" where
  "reconnectTimeout e tk s =
     (case reconnectTimer s of
        None \<Rightarrow> s
      | Some tm \<Rightarrow>
          if \<not> pending tm then s
          else (let s1 = s\<lparr>reconnectTimer := Some (tm\<lparr>pending := False\<rparr>),
                          reconnectAttempt := reconnectAttempt s + 1\<rparr>
                in internalConnect e tk (connectOptions s1) s1))"

definition step :: "env \<Rightarrow> tick \<Rightarrow> action \<Rightarrow> client \<Rightarrow> client completion" where
  "step e tk a s =
     (case a of
        Connect options \<Rightarrow> Inr (connect e tk options s)
      | Disconnect \<Rightarrow> Inr (disconnect s)
      | Send msg \<Rightarrow> send e msg s
      | MockOpenTimeout \<Rightarrow> Inr (mockOpenTimeout s)
      | MockEchoTimeout \<Rightarrow> Inr (mockEchoTimeout s)
      | ReconnectTimeout \<Rightarrow> Inr (reconnectTimeout e tk s)
      | HeartbeatInterval \<Rightarrow> (if heartbeatTimer s then heartbeatCallback e tk s else Inr s)
      | SocketOpen \<Rightarrow>
          (case ws s of
             None \<Rightarrow> Inr s
           | Some w \<Rightarrow> (let w1 = w\<lparr>readyState := WebSocket_OPEN\<rparr>
                        in ws_onopen e tk w1 (s\<lparr>ws := Some w1\<rparr>)))
      | SocketClose ev \<Rightarrow>
          (case ws s of
             None \<Rightarrow> Inr s
           | Some w \<Rightarrow> Inr (ws_onclose tk ev (s\<lparr>ws := Some (w\<lparr>readyState := 3\<rparr>)\<rparr>)))
      | SocketError ev \<Rightarrow> (case ws s of None \<Rightarrow> Inr s | Some w \<Rightarrow> Inr (ws_onerror tk ev s))
      | SocketMessage raw \<Rightarrow> (case ws s of None \<Rightarrow> Inr s | Some w \<Rightarrow> Inr (ws_onmessage e tk raw s)))"

fun run :: "env \<Rightarrow> (tick \<times> action) list \<Rightarrow> client \<Rightarrow> client completion" where
  "run e [] s = Inr s"
| "run e ((tk, a) # rest) s = andThen (step e tk a s) (run e rest)"

subsection \<open>Notions used to state the properties\<close>

text \<open>The members of the \<^verbatim>\<open>Set\<close> registered under an event name, empty when the \<^verbatim>\<open>Map\<close>
  has no entry.\<close>

definition subscribed :: "'p emitter \<Rightarrow> string \<Rightarrow> nat list" where
  "subscribed s eventName = (case handlers s eventName of None \<Rightarrow> [] | Some hs \<Rightarrow> hs)"

text \<open>The pairs a dispatch logs as warnings: one for each called handler that throws.\<close>

definition thrownBy :: "(nat \<Rightarrow> 'p \<Rightarrow> handlerBody) \<Rightarrow> string \<Rightarrow> 'p \<Rightarrow> nat list \<Rightarrow> (string \<times> exn) list" where
  "thrownBy bodies eventName payload hs =
     concat (map (\<lambda>h. case thrown (bodies h payload) of None \<Rightarrow> [] | Some x \<Rightarrow> [(eventName, x)]) hs)"

text \<open>The error events of the frames of a list whose transmission throws.\<close>

definition sendFailures :: "env \<Rightarrow> bool \<Rightarrow> string list \<Rightarrow> event list" where
  "sendFailures e isMock fs =
     concat (map (\<lambda>f. case sendThrows e f of None \<Rightarrow> []
                        | Some x \<Rightarrow> [ErrorEvent FailedToSendFrame (Some x) isMock]) fs)"

text \<open>The frame a call of \<^verbatim>\<open>send\<close> submits, if any.\<close>

fun frameOf :: "message \<Rightarrow> string option" where
  "frameOf (MString str) = Some str"
| "frameOf (MObject (Inr (Some str))) = Some str"
| "frameOf m = None"

definition framesOf :: "(tick \<times> message) list \<Rightarrow> string list" where
  "framesOf tms = List.map_filter (\<lambda>tm. frameOf (snd tm)) tms"

definition sends :: "(tick \<times> message) list \<Rightarrow> (tick \<times> action) list" where
  "sends tms = map (\<lambda>tm. (fst tm, Send (snd tm))) tms"

text \<open>Two states that differ at most in the transports, the queue and the trace.\<close>

definition sameControl :: "client \<Rightarrow> client \<Rightarrow> bool" where
  "sameControl s s1 = (s1 = s\<lparr>ws := ws s1, mockWs := mockWs s1, outboundQueue := outboundQueue s1,
                               emitted := emitted s1\<rparr>)"

fun isOpenEvent :: "event \<Rightarrow> bool" where
  "isOpenEvent (OpenEvent u p m) = True"
| "isOpenEvent ev = False"

fun isMessageEvent :: "event \<Rightarrow> bool" where
  "isMessageEvent (MessageEvent d m) = True"
| "isMessageEvent ev = False"

fun isErrorEvent :: "event \<Rightarrow> bool" where
  "isErrorEvent (ErrorEvent msg x m) = True"
| "isErrorEvent ev = False"

fun isStaleError :: "event \<Rightarrow> bool" where
  "isStaleError (ErrorEvent (StaleConnection d) x m) = True"
| "isStaleError ev = False"

fun isConnect :: "action \<Rightarrow> bool" where
  "isConnect (Connect options) = True"
| "isConnect a = False"

subsection \<open>Concrete inputs\<close>

definition exampleWindow :: window where
  "exampleWindow = \<lparr>location = Some \<lparr>protocol = ''http:'', host = ''localhost:3000''\<rparr>,
                    hasWebSocket = True\<rparr>"

text \<open>No address configured; the page is served from \<^verbatim>\<open>http://localhost:3000\<close>.\<close>

definition envUnconfigured :: env where
  "envUnconfigured =
     \<lparr>REACT_APP_WS_URL = None, windowObj = Some exampleWindow,
      constructorThrows = (\<lambda>u. None), sendThrows = (\<lambda>f. None), JSON_parse = (\<lambda>t. None)\<rparr>"

text \<open>An address is configured and the transport accepts every frame.\<close>

definition envConfigured :: env where
  "envConfigured =
     \<lparr>REACT_APP_WS_URL = Some ''http://example.test/'', windowObj = Some exampleWindow,
      constructorThrows = (\<lambda>u. None), sendThrows = (\<lambda>f. None), JSON_parse = (\<lambda>t. None)\<rparr>"

text \<open>An address is configured and the transport's \<^verbatim>\<open>send\<close> throws on the frame \<^verbatim>\<open>b\<close>.\<close>

definition envRejectsB :: env where
  "envRejectsB =
     \<lparr>REACT_APP_WS_URL = Some ''ws://example.test'', windowObj = Some exampleWindow,
      constructorThrows = (\<lambda>u. None),
      sendThrows = (\<lambda>f. if f = ''b'' then Some (Exn ''send failed'') else None),
      JSON_parse = (\<lambda>t. None)\<rparr>"

text \<open>An address is configured and the transport's \<^verbatim>\<open>send\<close> throws on every frame.\<close>

definition envRejectsAll :: env where
  "envRejectsAll =
     \<lparr>REACT_APP_WS_URL = Some ''ws://example.test'', windowObj = Some exampleWindow,
      constructorThrows = (\<lambda>u. None), sendThrows = (\<lambda>f. Some (Exn ''send failed'')),
      JSON_parse = (\<lambda>t. None)\<rparr>"

definition tickAt :: "int \<Rightarrow> tick" where
  "tickAt t = \<lparr>now = t, rand = 1 / 2\<rparr>"

definition optionsWs :: ConnectOptions where
  "optionsWs = \<lparr>path = Some ''/ws'', protocols = None, autoReconnect = None\<rparr>"

text \<open>Three handlers of \<^verbatim>\<open>open\<close>: the first unsubscribes itself and the second, the second
  throws, the third subscribes a fourth.\<close>

definition exampleBodies :: "nat \<Rightarrow> unit \<Rightarrow> handlerBody" where
  "exampleBodies h p =
     (if h = 1 then \<lparr>registryCalls = [CallOff ''open'' 1, CallOff ''open'' 2], thrown = None\<rparr>
      else if h = 2 then \<lparr>registryCalls = [], thrown = Some (Exn ''handler failed'')\<rparr>
      else \<lparr>registryCalls = [CallOn ''open'' 4], thrown = None\<rparr>)"

definition exampleEmitter :: "unit emitter" where
  "exampleEmitter =
     \<lparr>handlers = on ''open'' 3 (on ''open'' 2 (on ''open'' 1 (\<lambda>n. None))), calls = [], warnings = []\<rparr>"

text \<open>The state a computation returns, if it returns.\<close>

definition completed :: "'s completion \<Rightarrow> 's option" where
  "completed c = (case c of Inl x \<Rightarrow> None | Inr s \<Rightarrow> Some s)"

text \<open>The frames the attached socket accepted.\<close>

definition sentFrames :: "client \<Rightarrow> string list" where
  "sentFrames s = (case ws s of None \<Rightarrow> [] | Some w \<Rightarrow> sent w)"

text \<open>The socket that \<^verbatim>\<open>connect({ path: "/ws" })\<close> constructs when the address
  \<^verbatim>\<open>ws://example.test\<close> is configured.\<close>

definition exampleSocket :: WebSocket where
  "exampleSocket = \<lparr>url = ''ws://example.test/ws'', protocolsArg = None, readyState = 0,
                    sent = [], closeCalls = []\<rparr>"

text \<open>Timers and callbacks of the attached socket: the steps that no caller makes.\<close>

fun isInternal :: "action \<Rightarrow> bool" where
  "isInternal (Connect options) = False"
| "isInternal Disconnect = False"
| "isInternal (Send msg) = False"
| "isInternal a = True"

text \<open>The manager after \<^verbatim>\<open>connect({ path: "/ws" })\<close> with no address configured, two calls
  of \<^verbatim>\<open>send\<close>, and the mock's open timeout.\<close>

definition exampleMockRun :: "(tick \<times> action) list" where
  "exampleMockRun =
     [(tickAt 0, Connect optionsWs), (tickAt 1, Send (MString ''a'')),
      (tickAt 2, Send (MString ''b'')), (tickAt 10, MockOpenTimeout)]"

definition exampleMockOpened :: client where
  "exampleMockOpened =
     (case run envUnconfigured exampleMockRun initialClient of Inr s \<Rightarrow> s | Inl xs \<Rightarrow> snd xs)"

text \<open>The manager after \<^verbatim>\<open>connect({ path: "/ws" })\<close> with an address configured and the
  socket's open callback at time 5.\<close>

definition exampleOpen :: client where
  "exampleOpen =
     (case run envRejectsB [(tickAt 0, Connect optionsWs), (tickAt 5, SocketOpen)] initialClient of
        Inr s \<Rightarrow> s | Inl xs \<Rightarrow> snd xs)"

text \<open>A manager with no transport attached, no timer pending and reconnection switched
  off by an explicit disconnect.\<close>

definition dormant :: "client \<Rightarrow> bool" where
  "dormant s = (ws s = None \<and> mockWs s = None \<and> reconnectTimer s = None \<and> \<not> heartbeatTimer s
                \<and> explicitlyDisconnected s \<and> \<not> shouldReconnect s)"

definition exampleAfterDisconnect :: "(tick \<times> action) list" where
  "exampleAfterDisconnect =
     [(tickAt 20, ReconnectTimeout), (tickAt 30, SocketOpen), (tickAt 40, HeartbeatInterval),
      (tickAt 50, MockOpenTimeout), (tickAt 60, Send (MString ''a'')), (tickAt 70, SocketClose None),
      (tickAt 80, MockEchoTimeout), (tickAt 90, SocketError None), (tickAt 95, SocketMessage ''x''),
      (tickAt 99, Disconnect)]"

text \<open>The steps that open a transport: the open callback of the socket and the open
  timeout of the mock.\<close>

fun isOpening :: "action \<Rightarrow> bool" where
  "isOpening SocketOpen = True"
| "isOpening MockOpenTimeout = True"
| "isOpening a = False"

text \<open>The frame a step submits: that of a call of \<^verbatim>\<open>send\<close>, none for any other step.\<close>

fun submittedFrame :: "action \<Rightarrow> string option" where
  "submittedFrame (Send msg) = frameOf msg"
| "submittedFrame a = None"

definition submitted :: "(tick \<times> action) list \<Rightarrow> string list" where
  "submitted steps = List.map_filter (\<lambda>ta. submittedFrame (snd ta)) steps"

text \<open>Two calls of \<^verbatim>\<open>send\<close> with no transport at all, then \<^verbatim>\<open>connect\<close>, a failed socket
  and the reconnect it schedules, and a third call while the new socket is connecting.\<close>

definition exampleBeforeOpen :: "(tick \<times> action) list" where
  "exampleBeforeOpen =
     [(tickAt 1, Send (MString ''a'')), (tickAt 2, Send (MString ''b'')),
      (tickAt 3, Connect optionsWs), (tickAt 4, SocketError None), (tickAt 5, SocketClose None),
      (tickAt 600, ReconnectTimeout), (tickAt 601, Send (MString ''c''))]"

section \<open>Properties\<close>

subsection \<open>Backoff\<close>

lemma round_between:
  fixes x :: real
  assumes "of_int a \<le> x" "x \<le> of_int b"
  shows "a \<le> round x \<and> round x \<le> b"
proof -
  have "round (of_int a :: real) \<le> round x" using assms(1) by (rule round_mono)
  moreover have "round x \<le> round (of_int b :: real)" using assms(2) by (rule round_mono)
  ultimately show ?thesis by simp
qed

lemma backoffBase_cases:
  "backoffBase n = of_int (500 * 2 ^ n) \<and> (500 * 2 ^ n \<le> (20000::int)) \<or> backoffBase n = 20000"
proof (cases "(500::real) * 2 ^ n \<le> 20000")
  case True
  have "(500::int) * 2 ^ n \<le> 20000"
  proof -
    have "real_of_int (500 * 2 ^ n) \<le> real_of_int 20000" using True by simp
    then show ?thesis by (simp only: of_int_le_iff)
  qed
  then show ?thesis
    using True by (simp add: backoffBase_def reconnectMaxMs_def reconnectInitialMs_def min_def)
next
  case False
  then show ?thesis
    by (simp add: backoffBase_def reconnectMaxMs_def reconnectInitialMs_def min_def)
qed

text \<open>The base delay is a multiple of four, so the two ends of the jitter interval are
  whole numbers and rounding cannot leave the interval.\<close>

lemma jitterDelay_quarter_bounds:
  assumes r: "0 \<le> r" "r < 1"
  shows "backoffBase n * (1 - reconnectJitterRatio)
           \<le> of_int (jitterDelay (backoffBase n) reconnectJitterRatio r)
       \<and> of_int (jitterDelay (backoffBase n) reconnectJitterRatio r)
           \<le> backoffBase n * (1 + reconnectJitterRatio)
       \<and> 0 \<le> jitterDelay (backoffBase n) reconnectJitterRatio r"
proof -
  obtain k :: int where k: "backoffBase n = of_int (4 * k)" and k0: "0 \<le> k"
  proof -
    from backoffBase_cases [of n] show ?thesis
    proof
      assume "backoffBase n = of_int (500 * 2 ^ n) \<and> (500 * 2 ^ n \<le> (20000::int))"
      then have "backoffBase n = of_int (4 * (125 * 2 ^ n))" by simp
      then show ?thesis using that [of "125 * 2 ^ n"] by simp
    next
      assume "backoffBase n = 20000"
      then have "backoffBase n = of_int (4 * 5000)" by simp
      then show ?thesis using that [of 5000] by simp
    qed
  qed
  define x where "x = backoffBase n - backoffBase n * (1/4)
    + r * ((backoffBase n + backoffBase n * (1/4)) - (backoffBase n - backoffBase n * (1/4)))"
  have xe: "x = of_int (3 * k) + r * of_int (2 * k)" unfolding x_def k by (simp add: algebra_simps)
  have lo: "of_int (3 * k) \<le> x" using r k0 unfolding xe by simp
  have "r * of_int (2 * k) \<le> 1 * of_int (2 * k)" using r k0 by (intro mult_right_mono) auto
  then have hi: "x \<le> of_int (5 * k)" unfolding xe by simp
  from round_between [OF lo hi] have rb: "3 * k \<le> round x" "round x \<le> 5 * k" by auto
  have jd: "jitterDelay (backoffBase n) reconnectJitterRatio r = max 0 (round x)"
    unfolding jitterDelay_def reconnectJitterRatio_def x_def by (simp add: Let_def)
  have m: "max 0 (round x) = round x" using rb k0 by simp
  have b1: "backoffBase n * (1 - reconnectJitterRatio) = of_int (3 * k)"
    unfolding k reconnectJitterRatio_def by simp
  have b2: "backoffBase n * (1 + reconnectJitterRatio) = of_int (5 * k)"
    unfolding k reconnectJitterRatio_def by simp
  show ?thesis unfolding jd m b1 b2 using rb k0 by (simp only: of_int_le_iff) simp
qed

lemma clearHeartbeatTimer_eq: "clearHeartbeatTimer s = s\<lparr>heartbeatTimer := False\<rparr>"
  by (cases s) (simp add: clearHeartbeatTimer_def)

lemma clearReconnectTimer_eq: "clearReconnectTimer s = s\<lparr>reconnectTimer := None\<rparr>"
  by (cases s) (simp add: clearReconnectTimer_def split: option.splits)

text \<open>
  C6. For every reconnect attempt \<open>n\<close> and every value \<open>r\<close> in \<open>[0, 1)\<close> of the random
  source, the delay of the timer that the Reconnect Scheduler arms lies between
  \<open>base * (1 - jitterRatio)\<close> and \<open>base * (1 + jitterRatio)\<close> and is not negative, where
  \<open>base = min maxDelayMs (initialDelayMs * 2 ^ n)\<close>.
\<close>

theorem reconnect_delay_within_jitter_bounds:
  assumes "0 \<le> rand tk" "rand tk < 1" "shouldReconnect s" "\<not> explicitlyDisconnected s"
  shows "\<exists>tm. reconnectTimer (scheduleReconnect tk rsn s) = Some tm \<and> pending tm
      \<and> min reconnectMaxMs (reconnectInitialMs * 2 ^ reconnectAttempt s) * (1 - reconnectJitterRatio)
          \<le> of_int (delay tm)
      \<and> of_int (delay tm)
          \<le> min reconnectMaxMs (reconnectInitialMs * 2 ^ reconnectAttempt s) * (1 + reconnectJitterRatio)
      \<and> 0 \<le> delay tm"
proof -
  let ?d = "jitterDelay (backoffBase (reconnectAttempt s)) reconnectJitterRatio (rand tk)"
  have "reconnectTimer (scheduleReconnect tk rsn s) = Some \<lparr>delay = ?d, reason = rsn, pending = True\<rparr>"
    using assms(3,4) by (simp add: scheduleReconnect_def Let_def clearReconnectTimer_eq backoffBase_def)
  then show ?thesis
    using jitterDelay_quarter_bounds [OF assms(1,2), of "reconnectAttempt s"]
    by (simp add: backoffBase_def)
qed

theorem reconnect_delay_within_jitter_bounds_witness:
  "0 \<le> rand (tickAt 0) \<and> rand (tickAt 0) < 1 \<and> shouldReconnect initialClient
   \<and> \<not> explicitlyDisconnected initialClient
   \<and> (\<exists>tm. reconnectTimer (scheduleReconnect (tickAt 0) ''close'' initialClient) = Some tm \<and> pending tm
        \<and> 375 \<le> delay tm \<and> delay tm \<le> 625)"
proof -
  have h: "0 \<le> rand (tickAt 0)" "rand (tickAt 0) < 1" "shouldReconnect initialClient"
    "\<not> explicitlyDisconnected initialClient"
    by (simp_all add: tickAt_def initialClient_def)
  from reconnect_delay_within_jitter_bounds [OF h, of "''close''"] obtain tm where
    t: "reconnectTimer (scheduleReconnect (tickAt 0) ''close'' initialClient) = Some tm" "pending tm"
    and b: "min reconnectMaxMs (reconnectInitialMs * 2 ^ reconnectAttempt initialClient)
               * (1 - reconnectJitterRatio) \<le> real_of_int (delay tm)"
           "real_of_int (delay tm)
               \<le> min reconnectMaxMs (reconnectInitialMs * 2 ^ reconnectAttempt initialClient)
                  * (1 + reconnectJitterRatio)"
    by blast
  have "real_of_int 375 \<le> real_of_int (delay tm)" "real_of_int (delay tm) \<le> real_of_int 625"
    using b by (simp_all add: initialClient_def reconnectMaxMs_def reconnectInitialMs_def
        reconnectJitterRatio_def)
  then have "375 \<le> delay tm" "delay tm \<le> 625" by (simp_all only: of_int_le_iff)
  then show ?thesis using h t by simp
qed

subsection \<open>Event registry\<close>

lemma thrownBy_simps [simp]:
  "thrownBy bodies name p [] = []"
  "thrownBy bodies name p (h # hs) =
     (case thrown (bodies h p) of None \<Rightarrow> [] | Some x \<Rightarrow> [(name, x)]) @ thrownBy bodies name p hs"
  by (simp_all add: thrownBy_def)

lemma forEachHandler_returns:
  "\<exists>s1. forEachHandler bodies name p hs s = Inr s1
      \<and> calls s1 = calls s @ map (\<lambda>h. (h, p)) hs
      \<and> warnings s1 = warnings s @ thrownBy bodies name p hs"
proof (induction hs arbitrary: s)
  case Nil
  then show ?case by simp
next
  case (Cons h hs)
  obtain s0 where s0: "tryCatch (callHandler bodies h p s)
          (\<lambda>e s1. Inr (s1\<lparr>warnings := warnings s1 @ [(name, e)]\<rparr>)) = Inr s0"
     and c0: "calls s0 = calls s @ [(h, p)]"
     and w0: "warnings s0 = warnings s @ (case thrown (bodies h p) of None \<Rightarrow> [] | Some x \<Rightarrow> [(name, x)])"
    by (cases "thrown (bodies h p)") (simp_all add: tryCatch_def callHandler_def Let_def)
  from Cons.IH [of s0] obtain s1 where
    "forEachHandler bodies name p hs s0 = Inr s1"
    "calls s1 = calls s0 @ map (\<lambda>h. (h, p)) hs"
    "warnings s1 = warnings s0 @ thrownBy bodies name p hs"
    by blast
  then show ?case using s0 c0 w0 by (simp add: andThen_def)
qed

lemma emit_returns:
  "\<exists>s1. emit bodies name p s = Inr s1
      \<and> calls s1 = calls s @ map (\<lambda>h. (h, p)) (subscribed s name)
      \<and> warnings s1 = warnings s @ thrownBy bodies name p (subscribed s name)"
proof (cases "handlers s name")
  case None
  then show ?thesis by (simp add: emit_def subscribed_def)
next
  case (Some hs)
  show ?thesis
  proof (cases "hs = []")
    case True
    then show ?thesis using Some by (simp add: emit_def subscribed_def)
  next
    case False
    then show ?thesis using Some forEachHandler_returns [of bodies name p hs s]
      by (simp add: emit_def subscribed_def)
  qed
qed

lemma count_list_distinct: "distinct xs \<Longrightarrow> x \<in> set xs \<Longrightarrow> count_list xs x = 1"
  by (induction xs) (auto simp: count_list_0_iff)

lemma thrownBy_member:
  "h \<in> set hs \<Longrightarrow> thrown (bodies h p) = Some x \<Longrightarrow> (name, x) \<in> set (thrownBy bodies name p hs)"
  by (induction hs) auto

text \<open>A \<^verbatim>\<open>Set\<close> never holds a value twice: \<^verbatim>\<open>add\<close> and \<^verbatim>\<open>delete\<close> keep the list of
  members free of duplicates.\<close>

lemma distinct_setAdd: "distinct hs \<Longrightarrow> distinct (setAdd h hs)"
  by (simp add: setAdd_def)

lemma distinct_setDelete: "distinct hs \<Longrightarrow> distinct (setDelete h hs)"
  by (simp add: setDelete_def)

lemma on_keeps_sets_distinct:
  assumes "\<forall>n hs. r n = Some hs \<longrightarrow> distinct hs"
  shows "\<forall>n hs. on name h r n = Some hs \<longrightarrow> distinct hs"
  using assms by (auto simp: on_def getSet_def Let_def distinct_setAdd split: option.splits if_splits)

lemma off_keeps_sets_distinct:
  assumes "\<forall>n hs. r n = Some hs \<longrightarrow> distinct hs"
  shows "\<forall>n hs. off name h r n = Some hs \<longrightarrow> distinct hs"
  using assms by (auto simp: off_def distinct_setDelete split: option.splits if_splits)

text \<open>
  C9. During a dispatch, every handler that was subscribed when the dispatch began is
  called exactly once, whatever the handlers do to the registry while the dispatch runs
  (unsubscribing themselves or others, subscribing new handlers): the loop runs over the
  copy of the set taken before the first call.
\<close>

theorem emit_calls_each_subscribed_handler_once:
  assumes "distinct (subscribed s eventName)"
  shows "\<exists>s1. emit bodies eventName payload s = Inr s1
      \<and> calls s1 = calls s @ map (\<lambda>h. (h, payload)) (subscribed s eventName)
      \<and> (\<forall>h \<in> set (subscribed s eventName).
            count_list (map fst (drop (length (calls s)) (calls s1))) h = 1)"
proof -
  from emit_returns [of bodies eventName payload s] obtain s1 where
    e: "emit bodies eventName payload s = Inr s1"
    and c: "calls s1 = calls s @ map (\<lambda>h. (h, payload)) (subscribed s eventName)" by blast
  have "map fst (drop (length (calls s)) (calls s1)) = subscribed s eventName"
    unfolding c by (simp add: comp_def)
  then show ?thesis using e c assms by (simp add: count_list_distinct)
qed

lemma exampleEmitter_subscribed: "subscribed exampleEmitter ''open'' = [1, 2, 3]"
  by (simp add: subscribed_def exampleEmitter_def on_def getSet_def setAdd_def)

theorem emit_calls_each_subscribed_handler_once_witness:
  "distinct (subscribed exampleEmitter ''open'')
   \<and> (\<exists>s1. emit exampleBodies ''open'' () exampleEmitter = Inr s1
         \<and> calls s1 = [(1, ()), (2, ()), (3, ())])"
proof -
  have d: "distinct (subscribed exampleEmitter ''open'')"
    by (simp add: exampleEmitter_subscribed)
  from emit_calls_each_subscribed_handler_once [OF d, of exampleBodies "()"]
  show ?thesis using d by (auto simp: exampleEmitter_subscribed) (simp add: exampleEmitter_def)
qed

text \<open>
  C10. If a subscribed handler throws during a dispatch, the dispatcher catches the
  exception: \<^verbatim>\<open>emit\<close> returns normally, the thrown value is logged as a warning, and
  every handler of the event, so also every one after the throwing handler, is called.
\<close>

theorem emit_catches_handler_exception:
  assumes "h \<in> set (subscribed s eventName)" "thrown (bodies h payload) = Some x"
  shows "\<exists>s1. emit bodies eventName payload s = Inr s1
      \<and> map fst (drop (length (calls s)) (calls s1)) = subscribed s eventName
      \<and> warnings s1 = warnings s @ thrownBy bodies eventName payload (subscribed s eventName)
      \<and> (eventName, x) \<in> set (warnings s1)"
proof -
  from emit_returns [of bodies eventName payload s] obtain s1 where
    e: "emit bodies eventName payload s = Inr s1"
    and c: "calls s1 = calls s @ map (\<lambda>h. (h, payload)) (subscribed s eventName)"
    and w: "warnings s1 = warnings s @ thrownBy bodies eventName payload (subscribed s eventName)"
    by blast
  have "map fst (drop (length (calls s)) (calls s1)) = subscribed s eventName"
    unfolding c by (simp add: comp_def)
  then show ?thesis using e w thrownBy_member [where bodies = bodies and h = h and p = payload and name = eventName, OF assms]
    by simp
qed

theorem emit_catches_handler_exception_witness:
  "2 \<in> set (subscribed exampleEmitter ''open'')
   \<and> thrown (exampleBodies 2 ()) = Some (Exn ''handler failed'')
   \<and> (\<exists>s1. emit exampleBodies ''open'' () exampleEmitter = Inr s1
         \<and> map fst (calls s1) = [1, 2, 3]
         \<and> warnings s1 = [(''open'', Exn ''handler failed'')])"
proof -
  have h: "2 \<in> set (subscribed exampleEmitter ''open'')"
    "thrown (exampleBodies 2 ()) = Some (Exn ''handler failed'')"
    by (simp_all add: exampleEmitter_subscribed exampleBodies_def)
  from emit_catches_handler_exception
         [where bodies = exampleBodies and h = 2 and payload = "()" and s = exampleEmitter, OF h]
  show ?thesis using h
    by (auto simp: exampleEmitter_subscribed) (simp_all add: exampleEmitter_def exampleBodies_def)
qed

subsection \<open>Outbound queue\<close>

lemma sendFailures_simps [simp]:
  "sendFailures e m [] = []"
  "sendFailures e m (f # fs) = (case sendThrows e f of None \<Rightarrow> []
                        | Some x \<Rightarrow> [ErrorEvent FailedToSendFrame (Some x) m]) @ sendFailures e m fs"
  by (simp_all add: sendFailures_def)

lemma sendFrame_not_open:
  "\<not> transportIsOpen s \<Longrightarrow>
   sendFrame e (Some f) s =
     Inr (s\<lparr>outboundQueue := (if length (outboundQueue s) \<ge> maxQueueSize
                               then sliceLast keptOnOverflow (outboundQueue s) else outboundQueue s) @ [f]\<rparr>)"
  by (simp add: sendFrame_def Let_def)

lemma sendFrame_open_socket:
  "ws s = Some w \<Longrightarrow> readyState w = WebSocket_OPEN \<Longrightarrow>
   sendFrame e (Some f) s =
     (case sendThrows e f of
        None \<Rightarrow> Inr (s\<lparr>ws := Some (w\<lparr>sent := sent w @ [f]\<rparr>)\<rparr>)
      | Some x \<Rightarrow> Inr (s\<lparr>outboundQueue := outboundQueue s @ [f],
                         emitted := emitted s @ [ErrorEvent FailedToSendFrame (Some x) (mockWs s \<noteq> None)]\<rparr>))"
  by (simp add: sendFrame_def transportIsOpen_def transmit_def wsSend_def tryCatch_def emitterEmit_def
      split: option.splits)

lemma sendFrame_returns: "\<exists>s1. sendFrame e frame s = Inr s1"
  by (simp add: sendFrame_def transmit_def wsSend_def tryCatch_def Let_def
      split: option.splits sum.splits)

lemma forEachFrame_open_socket:
  "ws s = Some w \<Longrightarrow> readyState w = WebSocket_OPEN \<Longrightarrow>
   \<exists>s1. forEachFrame e fs s = Inr s1
     \<and> ws s1 = Some (w\<lparr>sent := sent w @ filter (\<lambda>f. sendThrows e f = None) fs\<rparr>)
     \<and> outboundQueue s1 = outboundQueue s @ filter (\<lambda>f. sendThrows e f \<noteq> None) fs
     \<and> emitted s1 = emitted s @ sendFailures e (mockWs s \<noteq> None) fs
     \<and> state s1 = state s \<and> mockWs s1 = mockWs s \<and> heartbeatTimer s1 = heartbeatTimer s
     \<and> reconnectTimer s1 = reconnectTimer s"
proof (induction fs arbitrary: s w)
  case Nil
  then show ?case by simp
next
  case (Cons f fs)
  show ?case
  proof (cases "sendThrows e f")
    case None
    let ?w = "w\<lparr>sent := sent w @ [f]\<rparr>"
    let ?s = "s\<lparr>ws := Some ?w\<rparr>"
    have st: "sendFrame e (Some f) s = Inr ?s"
      using sendFrame_open_socket [OF Cons.prems, of e f] None by simp
    have "ws ?s = Some ?w" "readyState ?w = WebSocket_OPEN" using Cons.prems by simp_all
    from Cons.IH [OF this] obtain s1 where "forEachFrame e fs ?s = Inr s1"
      "ws s1 = Some (?w\<lparr>sent := sent ?w @ filter (\<lambda>f. sendThrows e f = None) fs\<rparr>)"
      "outboundQueue s1 = outboundQueue ?s @ filter (\<lambda>f. sendThrows e f \<noteq> None) fs"
      "emitted s1 = emitted ?s @ sendFailures e (mockWs ?s \<noteq> None) fs"
      "state s1 = state ?s" "mockWs s1 = mockWs ?s" "heartbeatTimer s1 = heartbeatTimer ?s"
      "reconnectTimer s1 = reconnectTimer ?s" by blast
    then show ?thesis using st None by (simp add: andThen_def)
  next
    case (Some x)
    let ?s = "s\<lparr>outboundQueue := outboundQueue s @ [f],
                 emitted := emitted s @ [ErrorEvent FailedToSendFrame (Some x) (mockWs s \<noteq> None)]\<rparr>"
    have st: "sendFrame e (Some f) s = Inr ?s"
      using sendFrame_open_socket [OF Cons.prems, of e f] Some by simp
    have "ws ?s = Some w" "readyState w = WebSocket_OPEN" using Cons.prems by simp_all
    from Cons.IH [OF this] obtain s1 where "forEachFrame e fs ?s = Inr s1"
      "ws s1 = Some (w\<lparr>sent := sent w @ filter (\<lambda>f. sendThrows e f = None) fs\<rparr>)"
      "outboundQueue s1 = outboundQueue ?s @ filter (\<lambda>f. sendThrows e f \<noteq> None) fs"
      "emitted s1 = emitted ?s @ sendFailures e (mockWs ?s \<noteq> None) fs"
      "state s1 = state ?s" "mockWs s1 = mockWs ?s" "heartbeatTimer s1 = heartbeatTimer ?s"
      "reconnectTimer s1 = reconnectTimer ?s" by blast
    then show ?thesis using st Some by (simp add: andThen_def)
  qed
qed

lemma sameControl_refl [simp]: "sameControl s s"
  by (simp add: sameControl_def)

lemma sameControl_trans: "sameControl s s1 \<Longrightarrow> sameControl s1 s2 \<Longrightarrow> sameControl s s2"
  by (cases s, cases s1, cases s2) (simp add: sameControl_def)

lemma sameControl_fields:
  assumes "sameControl s s1"
  shows "state s1 = state s" "connectOptions s1 = connectOptions s" "lastUrl s1 = lastUrl s"
    "shouldReconnect s1 = shouldReconnect s" "reconnectAttempt s1 = reconnectAttempt s"
    "reconnectTimer s1 = reconnectTimer s" "heartbeatTimer s1 = heartbeatTimer s"
    "lastInboundAt s1 = lastInboundAt s" "lastOpenAt s1 = lastOpenAt s"
    "explicitlyDisconnected s1 = explicitlyDisconnected s"
  using assms by (cases s, cases s1, simp add: sameControl_def)+

lemma sameControl_updates [simp]:
  "sameControl s (s\<lparr>ws := a\<rparr>)" "sameControl s (s\<lparr>mockWs := b\<rparr>)"
  "sameControl s (s\<lparr>outboundQueue := c\<rparr>)" "sameControl s (s\<lparr>emitted := d\<rparr>)"
  "sameControl s (s\<lparr>outboundQueue := c, emitted := d\<rparr>)"
  by (cases s, simp add: sameControl_def)+

lemma sendFrame_sameControl: "sendFrame e frame s = Inr s1 \<Longrightarrow> sameControl s s1"
  by (auto simp: sendFrame_def transmit_def wsSend_def tryCatch_def Let_def emitterEmit_def
      split: option.splits sum.splits if_splits)

lemma forEachFrame_sameControl: "forEachFrame e fs s = Inr s1 \<Longrightarrow> sameControl s s1"
proof (induction fs arbitrary: s)
  case Nil
  then show ?case by simp
next
  case (Cons f fs)
  from sendFrame_returns [of e "Some f" s] obtain s0 where s0: "sendFrame e (Some f) s = Inr s0" by blast
  with Cons.prems have "forEachFrame e fs s0 = Inr s1" by (simp add: andThen_def)
  from Cons.IH [OF this] sendFrame_sameControl [OF s0] show ?case by (blast intro: sameControl_trans)
qed

lemma flushQueue_sameControl: "flushQueue e s = Inr s1 \<Longrightarrow> sameControl s s1"
proof (cases "outboundQueue s = []")
  case True
  assume "flushQueue e s = Inr s1"
  then show ?thesis using True by (simp add: flushQueue_def)
next
  case False
  assume "flushQueue e s = Inr s1"
  then have "forEachFrame e (outboundQueue s) (s\<lparr>outboundQueue := []\<rparr>) = Inr s1"
    using False by (simp add: flushQueue_def)
  from forEachFrame_sameControl [OF this] have "sameControl (s\<lparr>outboundQueue := []\<rparr>) s1" .
  moreover have "sameControl s (s\<lparr>outboundQueue := []\<rparr>)" by simp
  ultimately show ?thesis by (blast intro: sameControl_trans)
qed

lemma send_sameControl: "send e msg s = Inr s1 \<Longrightarrow> sameControl s s1"
proof (cases msg)
  case (MString str)
  assume "send e msg s = Inr s1"
  then show ?thesis using MString sendFrame_sameControl [of e "Some str" s s1] by (simp add: send_def)
next
  case (MObject r)
  assume a: "send e msg s = Inr s1"
  show ?thesis
  proof (cases r)
    case (Inl x)
    then show ?thesis using a MObject by (auto simp: send_def tryCatch_def emitterEmit_def)
  next
    case (Inr fo)
    from sendFrame_returns [of e fo s] obtain s0 where s0: "sendFrame e fo s = Inr s0" by blast
    then have "s1 = s0" using a MObject Inr by (simp add: send_def tryCatch_def)
    then show ?thesis using sendFrame_sameControl [OF s0] by simp
  qed
qed (auto simp: send_def)

lemma send_returns: "\<exists>s1. send e msg s = Inr s1"
proof (cases msg)
  case (MString str)
  then show ?thesis using sendFrame_returns [of e "Some str" s] by (simp add: send_def)
next
  case (MObject r)
  show ?thesis
  proof (cases r)
    case (Inl x)
    then show ?thesis using MObject by (simp add: send_def tryCatch_def)
  next
    case (Inr fo)
    from sendFrame_returns [of e fo s] obtain s0 where s0: "sendFrame e fo s = Inr s0" by blast
    then show ?thesis using MObject Inr by (simp add: send_def tryCatch_def)
  qed
qed (simp_all add: send_def)

lemma keptOnOverflow_eq: "keptOnOverflow = 160"
  by (simp add: keptOnOverflow_def maxQueueSize_def)

lemma send_not_open:
  assumes "\<not> transportIsOpen s"
  shows "\<exists>s1. send e msg s = Inr s1
     \<and> outboundQueue s1 = (case frameOf msg of None \<Rightarrow> outboundQueue s
          | Some f \<Rightarrow> (if length (outboundQueue s) \<ge> maxQueueSize
                       then sliceLast keptOnOverflow (outboundQueue s) else outboundQueue s) @ [f])
     \<and> ws s1 = ws s \<and> mockWs s1 = mockWs s \<and> state s1 = state s"
proof (cases msg)
  case (MString str)
  then show ?thesis using sendFrame_not_open [OF assms, of e str] by (simp add: send_def)
next
  case (MObject r)
  show ?thesis
  proof (cases r)
    case (Inl x)
    then show ?thesis using MObject by (simp add: send_def tryCatch_def emitterEmit_def)
  next
    case (Inr fo)
    show ?thesis
    proof (cases fo)
      case None
      then show ?thesis using MObject Inr by (simp add: send_def tryCatch_def sendFrame_def)
    next
      case (Some f)
      then show ?thesis using MObject Inr sendFrame_not_open [OF assms, of e f]
        by (simp add: send_def tryCatch_def)
    qed
  qed
qed (simp_all add: send_def)

lemma suffix_sliceLast: "suffix (sliceLast n xs) xs"
  by (simp add: sliceLast_def suffix_drop)

lemma sends_not_open:
  assumes "\<not> transportIsOpen s"
  shows "\<exists>s1. run e (sends tms) s = Inr s1
     \<and> suffix (outboundQueue s1) (outboundQueue s @ framesOf tms)
     \<and> (length (outboundQueue s) + length (framesOf tms) \<le> maxQueueSize
          \<longrightarrow> outboundQueue s1 = outboundQueue s @ framesOf tms)
     \<and> ws s1 = ws s \<and> mockWs s1 = mockWs s \<and> state s1 = state s"
  using assms
proof (induction tms arbitrary: s)
  case Nil
  then show ?case by (simp add: sends_def framesOf_def map_filter_simps)
next
  case (Cons tm tms)
  from send_not_open [OF Cons.prems, of e "snd tm"] obtain s0 where
    s0: "send e (snd tm) s = Inr s0"
    and q0: "outboundQueue s0 = (case frameOf (snd tm) of None \<Rightarrow> outboundQueue s
          | Some f \<Rightarrow> (if length (outboundQueue s) \<ge> maxQueueSize
                       then sliceLast keptOnOverflow (outboundQueue s) else outboundQueue s) @ [f])"
    and k0: "ws s0 = ws s" "mockWs s0 = mockWs s" "state s0 = state s" by blast
  have n0: "\<not> transportIsOpen s0" using Cons.prems k0 by (simp add: transportIsOpen_def)
  from Cons.IH [OF n0] obtain s1 where
    r1: "run e (sends tms) s0 = Inr s1"
    and sf: "suffix (outboundQueue s1) (outboundQueue s0 @ framesOf tms)"
    and eq: "length (outboundQueue s0) + length (framesOf tms) \<le> maxQueueSize
          \<longrightarrow> outboundQueue s1 = outboundQueue s0 @ framesOf tms"
    and k1: "ws s1 = ws s0" "mockWs s1 = mockWs s0" "state s1 = state s0" by blast
  have r: "run e (sends (tm # tms)) s = Inr s1"
    using s0 r1 by (cases tm) (simp add: sends_def step_def andThen_def)
  have fr: "framesOf (tm # tms) = (case frameOf (snd tm) of None \<Rightarrow> [] | Some f \<Rightarrow> [f]) @ framesOf tms"
    by (simp add: framesOf_def map_filter_simps split: option.splits)
  have sf0: "suffix (outboundQueue s0 @ framesOf tms) (outboundQueue s @ framesOf (tm # tms))"
    unfolding fr q0 by (auto split: option.splits simp: suffix_sliceLast)
  have "suffix (outboundQueue s1) (outboundQueue s @ framesOf (tm # tms))"
    using sf sf0 by (rule suffix_order.trans)
  moreover have "length (outboundQueue s) + length (framesOf (tm # tms)) \<le> maxQueueSize
          \<longrightarrow> outboundQueue s1 = outboundQueue s @ framesOf (tm # tms)"
    using eq unfolding fr q0 by (auto split: option.splits)
  ultimately show ?case using r k0 k1 by simp
qed

lemma flushQueue_open_socket:
  assumes "ws s = Some w" "readyState w = WebSocket_OPEN"
  shows "\<exists>s2. flushQueue e s = Inr s2
     \<and> ws s2 = Some (w\<lparr>sent := sent w @ filter (\<lambda>f. sendThrows e f = None) (outboundQueue s)\<rparr>)
     \<and> outboundQueue s2 = filter (\<lambda>f. sendThrows e f \<noteq> None) (outboundQueue s)
     \<and> emitted s2 = emitted s @ sendFailures e (mockWs s \<noteq> None) (outboundQueue s)
     \<and> state s2 = state s \<and> mockWs s2 = mockWs s \<and> heartbeatTimer s2 = heartbeatTimer s
     \<and> reconnectTimer s2 = reconnectTimer s"
proof (cases "outboundQueue s = []")
  case True
  then show ?thesis using assms by (cases w) (simp add: flushQueue_def)
next
  case False
  let ?s = "s\<lparr>outboundQueue := []\<rparr>"
  have a: "ws ?s = Some w" using assms by simp
  from forEachFrame_open_socket [OF a assms(2), of e "outboundQueue s"]
  show ?thesis using False by (simp add: flushQueue_def)
qed

lemma ws_onopen_result:
  assumes "ws s = Some w" "readyState w = WebSocket_OPEN"
  shows "\<exists>s2. ws_onopen e tk w s = Inr s2
     \<and> ws s2 = Some (w\<lparr>sent := sent w @ filter (\<lambda>f. sendThrows e f = None) (outboundQueue s)\<rparr>)
     \<and> outboundQueue s2 = filter (\<lambda>f. sendThrows e f \<noteq> None) (outboundQueue s)
     \<and> state s2 = StOpen \<and> heartbeatTimer s2 \<and> reconnectAttempt s2 = 0
     \<and> emitted s2 = emitted s @ [StatusEvent StOpen (orNull (lastUrl s)) False,
                                  OpenEvent (Some (url w)) (protocolsArg w) False]
                       @ sendFailures e (mockWs s \<noteq> None) (outboundQueue s)"
proof -
  define s1 where "s1 = startHeartbeat tk (emitterEmit (OpenEvent (Some (url w)) (protocolsArg w) False)
      (emitStatus False (s\<lparr>state := StOpen, reconnectAttempt := 0, lastOpenAt := now tk,
         lastInboundAt := now tk\<rparr>)))"
  have f: "ws s1 = Some w" "outboundQueue s1 = outboundQueue s" "mockWs s1 = mockWs s"
     "state s1 = StOpen" "heartbeatTimer s1" 
     "emitted s1 = emitted s @ [StatusEvent StOpen (orNull (lastUrl s)) False,
                                  OpenEvent (Some (url w)) (protocolsArg w) False]"
    using assms(1)
    by (simp_all add: s1_def startHeartbeat_def emitterEmit_def emitStatus_def clearHeartbeatTimer_eq)
  have o: "ws_onopen e tk w s = flushQueue e s1"
    by (simp add: ws_onopen_def s1_def Let_def)
  from flushQueue_open_socket [OF f(1) assms(2), of e] obtain s2 where
     "flushQueue e s1 = Inr s2"
     "ws s2 = Some (w\<lparr>sent := sent w @ filter (\<lambda>f. sendThrows e f = None) (outboundQueue s1)\<rparr>)"
     "outboundQueue s2 = filter (\<lambda>f. sendThrows e f \<noteq> None) (outboundQueue s1)"
     "emitted s2 = emitted s1 @ sendFailures e (mockWs s1 \<noteq> None) (outboundQueue s1)"
     "state s2 = state s1" "heartbeatTimer s2 = heartbeatTimer s1" by blast
  moreover from sameControl_fields(5) [OF flushQueue_sameControl [OF calculation(1)]]
  have "reconnectAttempt s2 = 0"
    by (simp add: s1_def startHeartbeat_def emitterEmit_def emitStatus_def clearHeartbeatTimer_eq)
  ultimately show ?thesis using f o by simp
qed

lemma socketOpen_step:
  assumes "ws s = Some w"
  shows "\<exists>s2. step e tk SocketOpen s = Inr s2
     \<and> ws s2 = Some (w\<lparr>readyState := WebSocket_OPEN,
                        sent := sent w @ filter (\<lambda>f. sendThrows e f = None) (outboundQueue s)\<rparr>)
     \<and> outboundQueue s2 = filter (\<lambda>f. sendThrows e f \<noteq> None) (outboundQueue s)
     \<and> state s2 = StOpen \<and> heartbeatTimer s2 \<and> reconnectAttempt s2 = 0
     \<and> emitted s2 = emitted s @ [StatusEvent StOpen (orNull (lastUrl s)) False,
                                  OpenEvent (Some (url w)) (protocolsArg w) False]
                       @ sendFailures e (mockWs s \<noteq> None) (outboundQueue s)"
proof -
  let ?w = "w\<lparr>readyState := WebSocket_OPEN\<rparr>"
  let ?s = "s\<lparr>ws := Some ?w\<rparr>"
  have a: "ws ?s = Some ?w" "readyState ?w = WebSocket_OPEN" by simp_all
  have st: "step e tk SocketOpen s = ws_onopen e tk ?w ?s"
    using assms by (simp add: step_def Let_def)
  from ws_onopen_result [OF a, of e tk] show ?thesis unfolding st by simp
qed

subsection \<open>Connecting\<close>

lemma emitterEmit_fields [simp]:
  "ws (emitterEmit ev s) = ws s" "mockWs (emitterEmit ev s) = mockWs s"
  "state (emitterEmit ev s) = state s" "connectOptions (emitterEmit ev s) = connectOptions s"
  "lastUrl (emitterEmit ev s) = lastUrl s" "shouldReconnect (emitterEmit ev s) = shouldReconnect s"
  "reconnectAttempt (emitterEmit ev s) = reconnectAttempt s"
  "reconnectTimer (emitterEmit ev s) = reconnectTimer s"
  "heartbeatTimer (emitterEmit ev s) = heartbeatTimer s"
  "lastInboundAt (emitterEmit ev s) = lastInboundAt s" "lastOpenAt (emitterEmit ev s) = lastOpenAt s"
  "explicitlyDisconnected (emitterEmit ev s) = explicitlyDisconnected s"
  "outboundQueue (emitterEmit ev s) = outboundQueue s"
  "emitted (emitterEmit ev s) = emitted s @ [ev]"
  by (simp_all add: emitterEmit_def)

lemma emitStatus_fields [simp]:
  "ws (emitStatus b s) = ws s" "mockWs (emitStatus b s) = mockWs s"
  "state (emitStatus b s) = state s" "connectOptions (emitStatus b s) = connectOptions s"
  "lastUrl (emitStatus b s) = lastUrl s" "shouldReconnect (emitStatus b s) = shouldReconnect s"
  "reconnectAttempt (emitStatus b s) = reconnectAttempt s"
  "reconnectTimer (emitStatus b s) = reconnectTimer s"
  "heartbeatTimer (emitStatus b s) = heartbeatTimer s"
  "lastInboundAt (emitStatus b s) = lastInboundAt s" "lastOpenAt (emitStatus b s) = lastOpenAt s"
  "explicitlyDisconnected (emitStatus b s) = explicitlyDisconnected s"
  "outboundQueue (emitStatus b s) = outboundQueue s"
  "emitted (emitStatus b s) = emitted s @ [StatusEvent (state s) (orNull (lastUrl s)) b]"
  by (simp_all add: emitStatus_def)

text \<open>The events that closing the current mock emits: a close event if it was open.\<close>

lemma fold_emitterEmit: "fold emitterEmit evs s = s\<lparr>emitted := emitted s @ evs\<rparr>"
  by (induction evs arbitrary: s) (simp_all add: emitterEmit_def)

lemma cleanupSocketRefs_eq:
  "cleanupSocketRefs s =
     s\<lparr>ws := None, mockWs := None,
       emitted := emitted s @ (case mockWs s of None \<Rightarrow> [] | Some m \<Rightarrow> snd (mockCloseCall m))\<rparr>"
  by (cases s) (simp add: cleanupSocketRefs_def fold_emitterEmit split: option.splits prod.splits)

lemma mockCloseCall_no_open: "\<forall>ev \<in> set (snd (mockCloseCall m)). \<not> isOpenEvent ev"
  by (simp add: mockCloseCall_def)

lemma scheduleReconnect_fields [simp]:
  "ws (scheduleReconnect tk r s) = ws s" "mockWs (scheduleReconnect tk r s) = mockWs s"
  "state (scheduleReconnect tk r s) = state s"
  "connectOptions (scheduleReconnect tk r s) = connectOptions s"
  "lastUrl (scheduleReconnect tk r s) = lastUrl s"
  "shouldReconnect (scheduleReconnect tk r s) = shouldReconnect s"
  "reconnectAttempt (scheduleReconnect tk r s) = reconnectAttempt s"
  "heartbeatTimer (scheduleReconnect tk r s) = heartbeatTimer s"
  "lastInboundAt (scheduleReconnect tk r s) = lastInboundAt s"
  "lastOpenAt (scheduleReconnect tk r s) = lastOpenAt s"
  "explicitlyDisconnected (scheduleReconnect tk r s) = explicitlyDisconnected s"
  "outboundQueue (scheduleReconnect tk r s) = outboundQueue s"
  "emitted (scheduleReconnect tk r s) = emitted s"
  by (simp_all add: scheduleReconnect_def Let_def clearReconnectTimer_eq)

lemma scheduleReconnect_not_eligible:
  "\<not> shouldReconnect s \<or> explicitlyDisconnected s \<Longrightarrow> scheduleReconnect tk r s = s"
  by (auto simp: scheduleReconnect_def)

text \<open>The address \<^verbatim>\<open>internalConnect\<close> computes.\<close>

lemma internalConnect_mock:
  assumes "\<not> hasWebSocketSupport e
           \<or> joinUrl (resolveWsBaseUrlFromEnv e) (case path options of Some p \<Rightarrow> p | None \<Rightarrow> []) = []
           \<or> safeTrim (REACT_APP_WS_URL e) = []"
  shows "internalConnect e tk options s =
     s\<lparr>connectOptions := options, explicitlyDisconnected := False,
       lastUrl := joinUrl (resolveWsBaseUrlFromEnv e) (case path options of Some p \<Rightarrow> p | None \<Rightarrow> []),
       state := StMock, shouldReconnect := False, reconnectAttempt := 0, reconnectTimer := None,
       heartbeatTimer := False, ws := None, mockWs := Some createMockSocket,
       emitted := emitted s @ (case mockWs s of None \<Rightarrow> [] | Some m \<Rightarrow> snd (mockCloseCall m))
          @ [StatusEvent StMock
               (orNull (joinUrl (resolveWsBaseUrlFromEnv e) (case path options of Some p \<Rightarrow> p | None \<Rightarrow> [])))
               True]\<rparr>"
  using assms
  by (cases s)
     (auto simp: internalConnect_def Let_def clearReconnectTimer_eq clearHeartbeatTimer_eq
        cleanupSocketRefs_eq emitStatus_def emitterEmit_def)

lemma internalConnect_real:
  assumes "hasWebSocketSupport e"
    "joinUrl (resolveWsBaseUrlFromEnv e) (case path options of Some p \<Rightarrow> p | None \<Rightarrow> []) = u" "u \<noteq> []"
    "safeTrim (REACT_APP_WS_URL e) \<noteq> []"
  shows "internalConnect e tk options s =
     (let s1 = s\<lparr>connectOptions := options, explicitlyDisconnected := False, lastUrl := u,
                  shouldReconnect := (case autoReconnect options of Some b \<Rightarrow> b | None \<Rightarrow> True),
                  state := StConnecting, heartbeatTimer := False, ws := None, mockWs := None,
                  emitted := emitted s @ [StatusEvent StConnecting (orNull u) False]
                     @ (case mockWs s of None \<Rightarrow> [] | Some m \<Rightarrow> snd (mockCloseCall m))\<rparr>
      in case constructorThrows e u of
           None \<Rightarrow> s1\<lparr>ws := Some \<lparr>url = u, protocolsArg = protocols options, readyState = 0,
                                   sent = [], closeCalls = []\<rparr>\<rparr>
         | Some x \<Rightarrow> scheduleReconnect tk ''constructor_failed''
                      (s1\<lparr>state := StError,
                          emitted := emitted s1 @ [StatusEvent StError (orNull u) False,
                                                   ErrorEvent FailedToConstruct (Some x) False]\<rparr>))"
  using assms
  by (cases s)
     (auto simp: internalConnect_def Let_def clearReconnectTimer_eq clearHeartbeatTimer_eq
        cleanupSocketRefs_eq emitStatus_def emitterEmit_def split: option.splits)

lemma state_internalConnect: "state (internalConnect e tk options s) \<in> {StMock, StConnecting, StError}"
proof (cases "hasWebSocketSupport e
    \<and> joinUrl (resolveWsBaseUrlFromEnv e) (case path options of Some p \<Rightarrow> p | None \<Rightarrow> []) \<noteq> []
    \<and> safeTrim (REACT_APP_WS_URL e) \<noteq> []")
  case True
  then show ?thesis
    using internalConnect_real [of e options _ tk s]
    by (auto simp: Let_def split: option.splits)
next
  case False
  then show ?thesis using internalConnect_mock [of e options tk s] by auto
qed

lemma state_internalConnect_not_open [simp]: "state (internalConnect e tk options s) \<noteq> StOpen"
  using state_internalConnect [of e tk options s] by auto

lemma state_disconnect: "state (disconnect s) = StClosed"
  by (simp add: disconnect_def Let_def cleanupSocketRefs_eq)

lemma heartbeatCallback_sameControl:
  assumes "heartbeatCallback e tk s = Inr s1"
  shows "sameControl s s1"
proof (cases "case ws s of Some w \<Rightarrow> readyState w = WebSocket_OPEN | None \<Rightarrow> False")
  case False
  then show ?thesis using assms by (simp add: heartbeatCallback_def Let_def)
next
  case True
  from sendFrame_returns [of e "Some (pingFrame (now tk))" s] obtain s0 where
    s0: "sendFrame e (Some (pingFrame (now tk))) s = Inr s0" by blast
  note c0 = sendFrame_sameControl [OF s0]
  have "sameControl s0 s1"
    using assms True s0
    by (auto simp: heartbeatCallback_def Let_def andThen_def emitterEmit_def sameControl_def
        split: if_splits option.splits)
  with c0 show ?thesis by (blast intro: sameControl_trans)
qed

lemma heartbeatCallback_returns: "\<exists>s1. heartbeatCallback e tk s = Inr s1"
proof -
  from sendFrame_returns [of e "Some (pingFrame (now tk))" s] obtain s0 where
    s0: "sendFrame e (Some (pingFrame (now tk))) s = Inr s0" by blast
  then show ?thesis by (simp add: heartbeatCallback_def Let_def andThen_def)
qed

text \<open>Only the open callback of the socket moves the manager into \<open>StOpen\<close>.\<close>

lemma enters_open_only_by_socket_open:
  assumes "step e tk a s = Inr s1" "state s1 = StOpen" "state s \<noteq> StOpen"
  shows "a = SocketOpen"
proof (cases a)
  case (Connect options)
  then show ?thesis using assms by (auto simp: step_def connect_def Let_def)
next
  case Disconnect
  then show ?thesis using assms by (auto simp: step_def state_disconnect)
next
  case (Send msg)
  then show ?thesis using assms sameControl_fields(1) [OF send_sameControl, of e msg s s1]
    by (simp add: step_def)
next
  case MockOpenTimeout
  then show ?thesis using assms
    by (auto simp: step_def mockOpenTimeout_def Let_def split: option.splits if_splits)
next
  case MockEchoTimeout
  then show ?thesis using assms
    by (auto simp: step_def mockEchoTimeout_def Let_def split: option.splits if_splits list.splits)
next
  case ReconnectTimeout
  then show ?thesis using assms
    by (auto simp: step_def reconnectTimeout_def Let_def split: option.splits if_splits)
next
  case HeartbeatInterval
  then show ?thesis using assms sameControl_fields(1) [OF heartbeatCallback_sameControl, of e tk s s1]
    by (auto simp: step_def split: if_splits)
next
  case SocketOpen
  then show ?thesis by simp
next
  case (SocketClose ev)
  then show ?thesis using assms
    by (auto simp: step_def ws_onclose_def Let_def clearHeartbeatTimer_eq split: option.splits if_splits)
next
  case (SocketError ev)
  then show ?thesis using assms
    by (auto simp: step_def ws_onerror_def Let_def split: option.splits)
next
  case (SocketMessage raw)
  then show ?thesis using assms
    by (auto simp: step_def ws_onmessage_def Let_def split: option.splits if_splits)
qed

lemmas url_defs = resolveWsBaseUrlFromEnv_def joinUrl_def safeTrim_def trim_def isWhite_def
  startsWith_def stripTrailingSlashes_def hasWebSocketSupport_def isBareHostPort_def
  isHostChar_def isDigit_def charCode_def

lemmas client_defs = connect_def internalConnect_def disconnect_def clearReconnectTimer_eq
  clearHeartbeatTimer_eq cleanupSocketRefs_eq emitStatus_def emitterEmit_def createMockSocket_def
  mockCloseCall_def mockSendCall_def mockReadyState_def initialClient_def step_def send_def
  sendFrame_def transmit_def wsSend_def wsClose_def tryCatch_def andThen_def flushQueue_def
  ws_onopen_def ws_onclose_def ws_onerror_def ws_onmessage_def startHeartbeat_def
  heartbeatCallback_def scheduleReconnect_def mockOpenTimeout_def mockEchoTimeout_def
  reconnectTimeout_def transportIsOpen_def WebSocket_OPEN_def maxQueueSize_def orNull_def
  sends_def completed_def sentFrames_def tickAt_def optionsWs_def exampleWindow_def Let_def

text \<open>No step throws: every exception the transports and \<^verbatim>\<open>JSON.stringify\<close> can raise
  is caught inside the operation that meets it.\<close>

lemma flushQueue_returns: "\<exists>s1. flushQueue e s = Inr s1"
proof -
  have "\<exists>s1. forEachFrame e fs s0 = Inr s1" for fs s0
  proof (induction fs arbitrary: s0)
    case Nil
    then show ?case by simp
  next
    case (Cons f fs)
    from sendFrame_returns [of e "Some f" s0] obtain s2 where "sendFrame e (Some f) s0 = Inr s2"
      by blast
    then show ?case using Cons.IH [of s2] by (simp add: andThen_def)
  qed
  then show ?thesis by (simp add: flushQueue_def Let_def)
qed

lemma step_returns: "\<exists>s1. step e tk a s = Inr s1"
proof (cases a)
  case (Send msg)
  then show ?thesis using send_returns [of e msg s] by (simp add: step_def)
next
  case HeartbeatInterval
  then show ?thesis using heartbeatCallback_returns [of e tk s] by (simp add: step_def)
next
  case SocketOpen
  then show ?thesis using flushQueue_returns [of e]
    by (simp add: step_def ws_onopen_def Let_def split: option.splits)
qed (simp_all add: step_def split: option.splits)

lemma run_returns: "\<exists>s1. run e steps s = Inr s1"
proof (induction steps arbitrary: s)
  case Nil
  then show ?case by simp
next
  case (Cons ta steps)
  obtain tk a where ta: "ta = (tk, a)" by (cases ta)
  from step_returns [of e tk a s] obtain s0 where "step e tk a s = Inr s0" by blast
  then show ?case using ta Cons.IH [of s0] by (simp add: andThen_def)
qed

text \<open>
  C2, as stated, fails. The transport's \<^verbatim>\<open>send\<close> throws on the frame \<^verbatim>\<open>b\<close>: three frames
  are submitted while the socket is connecting, the socket opens, and after the flush the
  queue holds \<^verbatim>\<open>b\<close> again; the transport got \<^verbatim>\<open>a\<close> and \<^verbatim>\<open>c\<close>.
\<close>

theorem flush_requeues_rejected_frame:
  "map_option outboundQueue (completed (run envRejectsB
      ((tickAt 0, Connect optionsWs)
       # sends [(tickAt 1, MString ''a''), (tickAt 2, MString ''b''), (tickAt 3, MString ''c'')]
       @ [(tickAt 4, SocketOpen)]) initialClient)) = Some [''b'']
   \<and> map_option sentFrames (completed (run envRejectsB
      ((tickAt 0, Connect optionsWs)
       # sends [(tickAt 1, MString ''a''), (tickAt 2, MString ''b''), (tickAt 3, MString ''c'')]
       @ [(tickAt 4, SocketOpen)]) initialClient)) = Some [''a'', ''c'']"
  by (simp add: client_defs url_defs envRejectsB_def)

subsection \<open>Mock mode\<close>

text \<open>
  C1. With no destination configured, \<^verbatim>\<open>connect()\<close> and two calls of \<^verbatim>\<open>send\<close> before
  the mock's open timeout queue both frames. The claim says that both are echoed as
  message events once the mock has opened. In the code the mock's open timeout only
  emits the open event: \<^verbatim>\<open>flushQueue\<close> is called from the real socket's open callback
  alone. After the timeout, and after two further echo timeouts, the queue still holds
  both frames, no echo is pending and no message event has been emitted.
\<close>

theorem mock_open_leaves_frames_queued:
  "map_option outboundQueue (completed (run envUnconfigured
      (exampleMockRun @ [(tickAt 11, MockEchoTimeout), (tickAt 12, MockEchoTimeout)]) initialClient))
     = Some [''a'', ''b'']
   \<and> map_option emitted (completed (run envUnconfigured
      (exampleMockRun @ [(tickAt 11, MockEchoTimeout), (tickAt 12, MockEchoTimeout)]) initialClient))
     = Some [StatusEvent StMock (Some ''ws://localhost:3000/ws'') True, OpenEvent None None True]
   \<and> map_option mockWs (completed (run envUnconfigured
      (exampleMockRun @ [(tickAt 11, MockEchoTimeout), (tickAt 12, MockEchoTimeout)]) initialClient))
     = Some (Some \<lparr>mockOpen = True, mockClosed = False, openTimerPending = False, echoTimers = []\<rparr>)"
  by (simp add: exampleMockRun_def client_defs url_defs envUnconfigured_def)

text \<open>From then on no timer and no callback changes anything: the two frames stay in the
  queue and are never echoed, however long one waits.\<close>

lemma exampleMockOpened_eq:
  "exampleMockOpened =
     initialClient\<lparr>connectOptions := optionsWs, lastUrl := ''ws://localhost:3000/ws'',
       state := StMock, shouldReconnect := False,
       mockWs := Some \<lparr>mockOpen = True, mockClosed = False, openTimerPending = False, echoTimers = []\<rparr>,
       outboundQueue := [''a'', ''b''],
       emitted := [StatusEvent StMock (Some ''ws://localhost:3000/ws'') True, OpenEvent None None True]\<rparr>"
  by (simp add: exampleMockOpened_def exampleMockRun_def client_defs url_defs envUnconfigured_def)

lemma exampleMockOpened_internal_step:
  "isInternal a \<Longrightarrow> step e tk a exampleMockOpened = Inr exampleMockOpened"
  by (cases a)
     (simp_all add: exampleMockOpened_eq step_def mockOpenTimeout_def mockEchoTimeout_def
        reconnectTimeout_def initialClient_def)

lemma exampleMockOpened_no_message:
  "filter isMessageEvent (emitted exampleMockOpened) = []"
  "outboundQueue exampleMockOpened = [''a'', ''b'']"
  by (simp_all add: exampleMockOpened_eq initialClient_def)

lemma queued_mock_frames_never_echoed:
  "\<forall>ta \<in> set steps. isInternal (snd ta) \<Longrightarrow> run e steps exampleMockOpened = Inr exampleMockOpened"
proof (induction steps)
  case Nil
  then show ?case by simp
next
  case (Cons ta steps)
  then show ?case by (cases ta) (simp add: exampleMockOpened_internal_step andThen_def)
qed

subsection \<open>Queue capacity\<close>

text \<open>While the transport is not open, \<^verbatim>\<open>sendFrame\<close> keeps the queue within the
  capacity: a full queue drops its 40 oldest frames, and the new frame is the last.\<close>

lemma enqueue_when_not_open_bounded:
  assumes "\<not> transportIsOpen s" "length (outboundQueue s) \<le> maxQueueSize"
  shows "\<exists>s1. sendFrame e (Some f) s = Inr s1
     \<and> length (outboundQueue s1) \<le> maxQueueSize
     \<and> last (outboundQueue s1) = f
     \<and> (length (outboundQueue s) = maxQueueSize \<longrightarrow> outboundQueue s1 = drop 40 (outboundQueue s) @ [f])
     \<and> (length (outboundQueue s) < maxQueueSize \<longrightarrow> outboundQueue s1 = outboundQueue s @ [f])"
  using assms
  by (auto simp: sendFrame_not_open sliceLast_def keptOnOverflow_eq maxQueueSize_def)

text \<open>While the socket is open and its \<^verbatim>\<open>send\<close> throws, every submitted frame is pushed
  onto the queue by the \<^verbatim>\<open>catch\<close> block, which has no capacity check.\<close>

lemma sends_rejected_by_open_socket:
  assumes "ws s = Some w" "readyState w = WebSocket_OPEN" "\<forall>f. sendThrows e f \<noteq> None"
  shows "\<exists>s1. run e (sends (map (\<lambda>tf. (fst tf, MString (snd tf))) tfs)) s = Inr s1
     \<and> outboundQueue s1 = outboundQueue s @ map snd tfs \<and> ws s1 = Some w"
  using assms(1)
proof (induction tfs arbitrary: s)
  case Nil
  then show ?case by (simp add: sends_def)
next
  case (Cons tf tfs)
  from assms(3) obtain x where x: "sendThrows e (snd tf) = Some x" by auto
  let ?s = "s\<lparr>outboundQueue := outboundQueue s @ [snd tf],
               emitted := emitted s @ [ErrorEvent FailedToSendFrame (Some x) (mockWs s \<noteq> None)]\<rparr>"
  have st: "sendFrame e (Some (snd tf)) s = Inr ?s"
    using sendFrame_open_socket [OF Cons.prems assms(2), of e "snd tf"] x by simp
  have "ws ?s = Some w" using Cons.prems by simp
  from Cons.IH [OF this] obtain s1 where
    "run e (sends (map (\<lambda>tf. (fst tf, MString (snd tf))) tfs)) ?s = Inr s1"
    "outboundQueue s1 = outboundQueue ?s @ map snd tfs" "ws s1 = Some w" by blast
  then show ?case using st by (simp add: sends_def step_def send_def andThen_def)
qed

lemma run_append: "run e (xs @ ys) s = andThen (run e xs s) (run e ys)"
proof (induction xs arbitrary: s)
  case Nil
  then show ?case by (simp add: andThen_def)
next
  case (Cons ta xs)
  then show ?case by (cases ta) (simp add: andThen_def split: sum.splits)
qed

text \<open>
  C3. The claim bounds the queue by the capacity for every operation, the enqueue on a
  send failure among them. The branch of \<^verbatim>\<open>sendFrame\<close> that queues while disconnected
  trims the queue first; the \<^verbatim>\<open>catch\<close> branch pushes without a check. With a socket
  that is open and whose \<^verbatim>\<open>send\<close> throws, 201 calls of \<^verbatim>\<open>send\<close> leave 201 frames in a
  queue whose capacity is 200.
\<close>

theorem send_failures_exceed_capacity:
  "map_option (length \<circ> outboundQueue) (completed (run envRejectsAll
      ([(tickAt 0, Connect optionsWs), (tickAt 1, SocketOpen)]
       @ sends (replicate 201 (tickAt 2, MString ''x''))) initialClient)) = Some 201
   \<and> maxQueueSize = 200"
proof -
  obtain s0 w where
    r0: "run envRejectsAll [(tickAt 0, Connect optionsWs), (tickAt 1, SocketOpen)] initialClient = Inr s0"
    and w0: "ws s0 = Some w" "readyState w = WebSocket_OPEN" and q0: "outboundQueue s0 = []"
    by (simp add: client_defs url_defs envRejectsAll_def)
  have rj: "\<forall>f. sendThrows envRejectsAll f \<noteq> None" by (simp add: envRejectsAll_def)
  have m: "replicate 201 (tickAt 2, MString ''x'')
             = map (\<lambda>tf. (fst tf, MString (snd tf))) (replicate 201 (tickAt 2, ''x''))"
    by simp
  from sends_rejected_by_open_socket [OF w0 rj, of "replicate 201 (tickAt 2, ''x'')"]
  obtain s1 where
    r1: "run envRejectsAll (sends (replicate 201 (tickAt 2, MString ''x''))) s0 = Inr s1"
    and q1: "outboundQueue s1 = outboundQueue s0 @ map snd (replicate 201 (tickAt 2, ''x''))"
    unfolding m by blast
  have full: "run envRejectsAll
      ([(tickAt 0, Connect optionsWs), (tickAt 1, SocketOpen)]
       @ sends (replicate 201 (tickAt 2, MString ''x''))) initialClient = Inr s1"
    unfolding run_append r0 using r1 by (simp add: andThen_def)
  have "length (outboundQueue s1) = 201" unfolding q1 q0 by simp
  then show ?thesis unfolding full by (simp add: completed_def maxQueueSize_def)
qed

subsection \<open>\<^verbatim>\<open>send\<close> does not throw\<close>

text \<open>
  C8. For every message, \<^verbatim>\<open>send\<close> returns normally. When \<^verbatim>\<open>JSON.stringify\<close> throws, an
  error event is emitted and the queue is unchanged. When the transport is open and the
  socket's \<^verbatim>\<open>send\<close> throws, an error event is emitted and the frame is appended to the
  queue.
\<close>

theorem send_never_throws_and_requeues:
  "\<exists>s1. send e msg s = Inr s1
     \<and> (\<forall>x. msg = MObject (Inl x) \<longrightarrow>
           emitted s1 = emitted s @ [ErrorEvent FailedToSerialize (Some x) (mockWs s \<noteq> None)]
           \<and> outboundQueue s1 = outboundQueue s)
     \<and> (\<forall>f w x. frameOf msg = Some f \<and> ws s = Some w \<and> readyState w = WebSocket_OPEN
                  \<and> sendThrows e f = Some x \<longrightarrow>
           outboundQueue s1 = outboundQueue s @ [f]
           \<and> emitted s1 = emitted s @ [ErrorEvent FailedToSendFrame (Some x) (mockWs s \<noteq> None)])"
proof -
  from send_returns [of e msg s] obtain s1 where s1: "send e msg s = Inr s1" by blast
  have a: "\<forall>x. msg = MObject (Inl x) \<longrightarrow>
           emitted s1 = emitted s @ [ErrorEvent FailedToSerialize (Some x) (mockWs s \<noteq> None)]
           \<and> outboundQueue s1 = outboundQueue s"
    using s1 by (auto simp: send_def tryCatch_def)
  have b: "\<forall>f w x. frameOf msg = Some f \<and> ws s = Some w \<and> readyState w = WebSocket_OPEN
                  \<and> sendThrows e f = Some x \<longrightarrow>
           outboundQueue s1 = outboundQueue s @ [f]
           \<and> emitted s1 = emitted s @ [ErrorEvent FailedToSendFrame (Some x) (mockWs s \<noteq> None)]"
  proof (intro allI impI)
    fix f w x
    assume h: "frameOf msg = Some f \<and> ws s = Some w \<and> readyState w = WebSocket_OPEN
                  \<and> sendThrows e f = Some x"
    then have sf: "sendFrame e (Some f) s = Inr (s\<lparr>outboundQueue := outboundQueue s @ [f],
                         emitted := emitted s @ [ErrorEvent FailedToSendFrame (Some x) (mockWs s \<noteq> None)]\<rparr>)"
      using sendFrame_open_socket [of s w e f] by simp
    from h have "msg = MString f \<or> msg = MObject (Inr (Some f))"
      by (cases msg rule: frameOf.cases) simp_all
    then have "send e msg s = sendFrame e (Some f) s"
      using sf by (auto simp: send_def tryCatch_def)
    then show "outboundQueue s1 = outboundQueue s @ [f]
           \<and> emitted s1 = emitted s @ [ErrorEvent FailedToSendFrame (Some x) (mockWs s \<noteq> None)]"
      using s1 sf by simp
  qed
  show ?thesis using s1 a b by blast
qed

lemma exampleOpen_facts:
  "ws exampleOpen = Some (exampleSocket\<lparr>readyState := 1\<rparr>)" "outboundQueue exampleOpen = []"
  "mockWs exampleOpen = None" "heartbeatTimer exampleOpen" "lastInboundAt exampleOpen = 5"
  "shouldReconnect exampleOpen" "\<not> explicitlyDisconnected exampleOpen" "state exampleOpen = StOpen"
  "reconnectTimer exampleOpen = None"
  "emitted exampleOpen = [StatusEvent StConnecting (Some ''ws://example.test/ws'') False,
                          StatusEvent StOpen (Some ''ws://example.test/ws'') False,
                          OpenEvent (Some ''ws://example.test/ws'') None False]"
  by (simp_all add: exampleOpen_def exampleSocket_def client_defs url_defs envRejectsB_def)

theorem send_never_throws_and_requeues_witness:
  "frameOf (MString ''b'') = Some ''b'' \<and> ws exampleOpen = Some (exampleSocket\<lparr>readyState := 1\<rparr>)
   \<and> sendThrows envRejectsB ''b'' = Some (Exn ''send failed'')
   \<and> (\<exists>s1. send envRejectsB (MString ''b'') exampleOpen = Inr s1
         \<and> outboundQueue s1 = [''b'']
         \<and> emitted s1 = emitted exampleOpen
              @ [ErrorEvent FailedToSendFrame (Some (Exn ''send failed'')) False])"
proof -
  from send_never_throws_and_requeues [of envRejectsB "MString ''b''" exampleOpen]
  obtain s1 where s1: "send envRejectsB (MString ''b'') exampleOpen = Inr s1"
    and b: "\<forall>f w x. frameOf (MString ''b'') = Some f \<and> ws exampleOpen = Some w
                  \<and> readyState w = WebSocket_OPEN \<and> sendThrows envRejectsB f = Some x \<longrightarrow>
           outboundQueue s1 = outboundQueue exampleOpen @ [f]
           \<and> emitted s1 = emitted exampleOpen
                @ [ErrorEvent FailedToSendFrame (Some x) (mockWs exampleOpen \<noteq> None)]"
    by blast
  have h: "frameOf (MString ''b'') = Some ''b''"
    "ws exampleOpen = Some (exampleSocket\<lparr>readyState := 1\<rparr>)"
    "readyState (exampleSocket\<lparr>readyState := 1\<rparr>) = WebSocket_OPEN"
    "sendThrows envRejectsB ''b'' = Some (Exn ''send failed'')"
    by (simp_all add: exampleOpen_facts WebSocket_OPEN_def envRejectsB_def)
  from b h have "outboundQueue s1 = outboundQueue exampleOpen @ [''b'']
           \<and> emitted s1 = emitted exampleOpen
                @ [ErrorEvent FailedToSendFrame (Some (Exn ''send failed'')) (mockWs exampleOpen \<noteq> None)]"
    by blast
  then show ?thesis using s1 h by (simp add: exampleOpen_facts)
qed

subsection \<open>Disconnecting\<close>

lemma disconnect_eq:
  "disconnect s =
     s\<lparr>explicitlyDisconnected := True, shouldReconnect := False, reconnectTimer := None,
       heartbeatTimer := False, ws := None, mockWs := None, state := StClosed,
       emitted := emitted s @ [StatusEvent StClosing (orNull (lastUrl s)) (mockWs s \<noteq> None)]
          @ (case mockWs s of None \<Rightarrow> [] | Some m \<Rightarrow> snd (mockCloseCall m))
          @ [StatusEvent StClosed (orNull (lastUrl s)) False]\<rparr>"
proof (cases "mockWs s")
  case None
  then show ?thesis
    by (simp add: disconnect_def Let_def clearReconnectTimer_eq clearHeartbeatTimer_eq
        cleanupSocketRefs_eq emitStatus_def emitterEmit_def split: option.splits)
next
  case (Some m)
  have c: "mockClosed (fst (mockCloseCall m))" "snd (mockCloseCall (fst (mockCloseCall m))) = []"
    by (simp_all add: mockCloseCall_def)
  show ?thesis using Some c
    by (simp add: disconnect_def Let_def clearReconnectTimer_eq clearHeartbeatTimer_eq
        cleanupSocketRefs_eq emitStatus_def emitterEmit_def fold_emitterEmit split_def
        split: option.splits)
qed

lemma dormant_disconnect: "dormant (disconnect s)"
  by (simp add: disconnect_eq dormant_def)

lemma dormant_not_open: "dormant s \<Longrightarrow> \<not> transportIsOpen s"
  by (simp add: dormant_def transportIsOpen_def)

lemma send_not_open_emitted:
  assumes "\<not> transportIsOpen s" "send e msg s = Inr s1"
  shows "emitted s1 = emitted s @ (case msg of MObject (Inl x) \<Rightarrow>
            [ErrorEvent FailedToSerialize (Some x) (mockWs s \<noteq> None)] | _ \<Rightarrow> [])"
proof (cases msg)
  case (MString str)
  then show ?thesis using assms sendFrame_not_open [OF assms(1), of e str] by (auto simp: send_def)
next
  case (MObject r)
  show ?thesis
  proof (cases r)
    case (Inl x)
    then show ?thesis using MObject assms by (auto simp: send_def tryCatch_def)
  next
    case (Inr fo)
    show ?thesis
    proof (cases fo)
      case None
      then show ?thesis using MObject Inr assms by (auto simp: send_def tryCatch_def sendFrame_def)
    next
      case (Some f)
      then show ?thesis using MObject Inr assms sendFrame_not_open [OF assms(1), of e f]
        by (auto simp: send_def tryCatch_def)
    qed
  qed
qed (use assms in \<open>auto simp: send_def\<close>)

text \<open>A dormant manager stays dormant under every step but \<^verbatim>\<open>connect\<close>, and the step
  emits no open event.\<close>

lemma dormant_step:
  assumes "dormant s" "\<not> isConnect a"
  shows "\<exists>s1 evs. step e tk a s = Inr s1 \<and> dormant s1 \<and> emitted s1 = emitted s @ evs
           \<and> (\<forall>ev \<in> set evs. \<not> isOpenEvent ev)"
proof (cases a)
  case (Connect options)
  then show ?thesis using assms(2) by simp
next
  case Disconnect
  have "\<forall>ev \<in> set (case mockWs s of None \<Rightarrow> [] | Some m \<Rightarrow> snd (mockCloseCall m)). \<not> isOpenEvent ev"
    using mockCloseCall_no_open by (cases "mockWs s") auto
  then have "\<forall>ev \<in> set ([StatusEvent StClosing (orNull (lastUrl s)) (mockWs s \<noteq> None)]
          @ (case mockWs s of None \<Rightarrow> [] | Some m \<Rightarrow> snd (mockCloseCall m))
          @ [StatusEvent StClosed (orNull (lastUrl s)) False]). \<not> isOpenEvent ev"
    by auto
  moreover have "emitted (disconnect s) = emitted s
          @ ([StatusEvent StClosing (orNull (lastUrl s)) (mockWs s \<noteq> None)]
          @ (case mockWs s of None \<Rightarrow> [] | Some m \<Rightarrow> snd (mockCloseCall m))
          @ [StatusEvent StClosed (orNull (lastUrl s)) False])"
    by (simp add: disconnect_eq)
  moreover have "step e tk a s = Inr (disconnect s)" using Disconnect by (simp add: step_def)
  ultimately show ?thesis using dormant_disconnect [of s] by blast
next
  case (Send msg)
  from send_not_open [OF dormant_not_open [OF assms(1)], of e msg] obtain s1 where
    s1: "send e msg s = Inr s1" and k: "ws s1 = ws s" "mockWs s1 = mockWs s" by blast
  note c = send_sameControl [OF s1]
  have d: "dormant s1"
    using assms(1) k sameControl_fields [OF c] by (simp add: dormant_def)
  have "emitted s1 = emitted s @ (case msg of MObject (Inl x) \<Rightarrow>
            [ErrorEvent FailedToSerialize (Some x) (mockWs s \<noteq> None)] | _ \<Rightarrow> [])"
    using send_not_open_emitted [OF dormant_not_open [OF assms(1)] s1] .
  moreover have "\<forall>ev \<in> set (case msg of MObject (Inl x) \<Rightarrow>
            [ErrorEvent FailedToSerialize (Some x) (mockWs s \<noteq> None)] | _ \<Rightarrow> []). \<not> isOpenEvent ev"
    by (auto split: message.splits sum.splits)
  ultimately obtain evs where "emitted s1 = emitted s @ evs" "\<forall>ev \<in> set evs. \<not> isOpenEvent ev"
    by blast
  then show ?thesis using Send s1 d by (auto simp: step_def)
next
  case MockOpenTimeout
  then show ?thesis using assms(1) by (simp add: step_def mockOpenTimeout_def dormant_def)
next
  case MockEchoTimeout
  then show ?thesis using assms(1) by (simp add: step_def mockEchoTimeout_def dormant_def)
next
  case ReconnectTimeout
  then show ?thesis using assms(1) by (simp add: step_def reconnectTimeout_def dormant_def)
next
  case HeartbeatInterval
  then show ?thesis using assms(1) by (simp add: step_def dormant_def)
next
  case SocketOpen
  then show ?thesis using assms(1) by (simp add: step_def dormant_def)
next
  case (SocketClose ev)
  then show ?thesis using assms(1) by (simp add: step_def dormant_def)
next
  case (SocketError ev)
  then show ?thesis using assms(1) by (simp add: step_def dormant_def)
next
  case (SocketMessage raw)
  then show ?thesis using assms(1) by (simp add: step_def dormant_def)
qed

lemma dormant_run:
  assumes "dormant s" "\<forall>ta \<in> set steps. \<not> isConnect (snd ta)"
  shows "\<exists>s1 evs. run e steps s = Inr s1 \<and> dormant s1 \<and> emitted s1 = emitted s @ evs
           \<and> (\<forall>ev \<in> set evs. \<not> isOpenEvent ev)"
  using assms
proof (induction steps arbitrary: s)
  case Nil
  then show ?case by simp
next
  case (Cons ta steps)
  obtain tk a where ta: "ta = (tk, a)" by (cases ta)
  from Cons.prems ta have na: "\<not> isConnect a" by simp
  from dormant_step [OF Cons.prems(1) na, of e tk] obtain s0 evs0 where
    s0: "step e tk a s = Inr s0" "dormant s0" "emitted s0 = emitted s @ evs0"
    "\<forall>ev \<in> set evs0. \<not> isOpenEvent ev" by blast
  from Cons.prems have "\<forall>ta \<in> set steps. \<not> isConnect (snd ta)" by simp
  from Cons.IH [OF s0(2) this] obtain s1 evs1 where
    s1: "run e steps s0 = Inr s1" "dormant s1" "emitted s1 = emitted s0 @ evs1"
    "\<forall>ev \<in> set evs1. \<not> isOpenEvent ev" by blast
  have "run e (ta # steps) s = Inr s1" using ta s0(1) s1(1) by (simp add: andThen_def)
  moreover have "emitted s1 = emitted s @ (evs0 @ evs1)" using s0(3) s1(3) by simp
  moreover have "\<forall>ev \<in> set (evs0 @ evs1). \<not> isOpenEvent ev" using s0(4) s1(4) by auto
  ultimately show ?case using s1(2) by blast
qed

text \<open>
  C4. After \<^verbatim>\<open>disconnect()\<close> has returned, no sequence of steps without a new
  \<^verbatim>\<open>connect()\<close> (timers, socket callbacks, also \<^verbatim>\<open>send\<close> and \<^verbatim>\<open>disconnect\<close>) emits an
  open event: \<^verbatim>\<open>disconnect\<close> has set the explicit-disconnect flag, cancelled the reconnect
  timer and the heartbeat and detached both transports, this stays so, and with the flag
  set \<^verbatim>\<open>scheduleReconnect\<close> arms nothing.
\<close>

theorem no_open_event_after_disconnect:
  assumes "\<forall>ta \<in> set steps. \<not> isConnect (snd ta)"
  shows "\<exists>s1 evs. run e steps (disconnect s) = Inr s1
     \<and> emitted s1 = emitted (disconnect s) @ evs \<and> (\<forall>ev \<in> set evs. \<not> isOpenEvent ev)
     \<and> explicitlyDisconnected (disconnect s) \<and> reconnectTimer (disconnect s) = None
     \<and> \<not> heartbeatTimer (disconnect s)
     \<and> ws s1 = None \<and> mockWs s1 = None \<and> reconnectTimer s1 = None \<and> \<not> heartbeatTimer s1
     \<and> explicitlyDisconnected s1
     \<and> (\<forall>tk rsn. scheduleReconnect tk rsn s1 = s1)"
proof -
  from dormant_run [OF dormant_disconnect assms, of e s] obtain s1 evs where
    r: "run e steps (disconnect s) = Inr s1" and d: "dormant s1"
    and ev: "emitted s1 = emitted (disconnect s) @ evs" "\<forall>ev \<in> set evs. \<not> isOpenEvent ev"
    by blast
  have "\<forall>tk rsn. scheduleReconnect tk rsn s1 = s1"
    using d by (simp add: scheduleReconnect_not_eligible dormant_def)
  then show ?thesis using r d ev dormant_disconnect [of s] by (auto simp: dormant_def)
qed

theorem no_open_event_after_disconnect_witness:
  "list_all (\<lambda>ta. \<not> isConnect (snd ta)) exampleAfterDisconnect
   \<and> (\<exists>s1 evs. run envRejectsB exampleAfterDisconnect (disconnect exampleOpen) = Inr s1
         \<and> emitted s1 = emitted (disconnect exampleOpen) @ evs
         \<and> filter isOpenEvent evs = []
         \<and> ws s1 = None \<and> reconnectTimer s1 = None \<and> \<not> heartbeatTimer s1)"
proof -
  have h: "\<forall>ta \<in> set exampleAfterDisconnect. \<not> isConnect (snd ta)"
    by (simp add: exampleAfterDisconnect_def)
  from no_open_event_after_disconnect [OF h, of envRejectsB exampleOpen]
  obtain s1 evs where "run envRejectsB exampleAfterDisconnect (disconnect exampleOpen) = Inr s1"
    "emitted s1 = emitted (disconnect exampleOpen) @ evs" "\<forall>ev \<in> set evs. \<not> isOpenEvent ev"
    "ws s1 = None" "reconnectTimer s1 = None" "\<not> heartbeatTimer s1" by blast
  moreover from this(3) have "filter isOpenEvent evs = []" by (simp add: filter_empty_conv)
  ultimately show ?thesis using h by (auto simp: list_all_iff)
qed

subsection \<open>Heartbeat\<close>

lemma heartbeat_stale_tick:
  assumes "heartbeatTimer s" "ws s = Some w" "readyState w = WebSocket_OPEN"
    "now tk - lastInboundAt s > staleThresholdMs"
  shows "step e tk HeartbeatInterval s =
     Inr (s\<lparr>ws := Some (w\<lparr>sent := sent w @ filter (\<lambda>f. sendThrows e f = None) [pingFrame (now tk)],
                         readyState := 2,
                         closeCalls := closeCalls w @ [(4000, ''stale'')]\<rparr>),
           outboundQueue := outboundQueue s @ filter (\<lambda>f. sendThrows e f \<noteq> None) [pingFrame (now tk)],
           emitted := emitted s @ sendFailures e (mockWs s \<noteq> None) [pingFrame (now tk)]
                        @ [ErrorEvent (StaleConnection (now tk - lastInboundAt s)) None False]\<rparr>)"
proof (cases "sendThrows e (pingFrame (now tk))")
  case None
  have sf: "sendFrame e (Some (pingFrame (now tk))) s
              = Inr (s\<lparr>ws := Some (w\<lparr>sent := sent w @ [pingFrame (now tk)]\<rparr>)\<rparr>)"
    using sendFrame_open_socket [OF assms(2,3), of e "pingFrame (now tk)"] None by simp
  show ?thesis using assms None
    by (simp add: step_def heartbeatCallback_def Let_def sf andThen_def emitterEmit_def wsClose_def
        WebSocket_OPEN_def)
next
  case (Some x)
  have sf: "sendFrame e (Some (pingFrame (now tk))) s
              = Inr (s\<lparr>outboundQueue := outboundQueue s @ [pingFrame (now tk)],
                       emitted := emitted s @ [ErrorEvent FailedToSendFrame (Some x) (mockWs s \<noteq> None)]\<rparr>)"
    using sendFrame_open_socket [OF assms(2,3), of e "pingFrame (now tk)"] Some by simp
  show ?thesis using assms Some
    by (simp add: step_def heartbeatCallback_def Let_def sf andThen_def emitterEmit_def wsClose_def
        WebSocket_OPEN_def)
qed

lemma heartbeat_tick_not_open:
  assumes "ws s = Some w" "readyState w \<noteq> WebSocket_OPEN"
  shows "step e tk HeartbeatInterval s = Inr s"
  using assms by (simp add: step_def heartbeatCallback_def Let_def)

lemma socketClose_step:
  assumes "ws s = Some w"
  shows "step e tk (SocketClose ev) s =
     Inr ((if \<not> explicitlyDisconnected s \<and> shouldReconnect s
           then (\<lambda>s1. s1\<lparr>reconnectTimer := Some \<lparr>delay = jitterDelay
                     (min reconnectMaxMs (reconnectInitialMs * 2 ^ reconnectAttempt s))
                     reconnectJitterRatio (rand tk), reason = ''close'', pending = True\<rparr>\<rparr>)
           else (\<lambda>s1. s1))
          (s\<lparr>ws := Some (w\<lparr>readyState := 3\<rparr>), heartbeatTimer := False, state := StClosed,
             emitted := emitted s @ [StatusEvent StClosed (orNull (lastUrl s)) False,
                CloseEvent
                   (case ev of Some c \<Rightarrow> (case code c of Some n \<Rightarrow> n | None \<Rightarrow> 1006) | None \<Rightarrow> 1006)
                   (case ev of Some c \<Rightarrow> (case closeReason c of Some r \<Rightarrow> r | None \<Rightarrow> []) | None \<Rightarrow> [])
                   (case ev of Some c \<Rightarrow> wasClean c | None \<Rightarrow> False)
                   False]\<rparr>))"
  using assms
  by (simp add: step_def ws_onclose_def Let_def clearHeartbeatTimer_eq emitStatus_def emitterEmit_def
      scheduleReconnect_def clearReconnectTimer_eq)

text \<open>
  C5, as stated, fails. The socket is open since time 5, nothing arrives, and the
  transport's \<^verbatim>\<open>send\<close> throws. At the tick at time 50006 the probe is sent first: its
  failure emits an error event, and then the staleness error is emitted, so the tick fires
  two error events.
\<close>

theorem stale_tick_with_rejected_probe_emits_two_errors:
  "map_option (filter isErrorEvent \<circ> emitted) (completed (run envRejectsAll
      [(tickAt 0, Connect optionsWs), (tickAt 5, SocketOpen), (tickAt 50006, HeartbeatInterval)]
      initialClient))
     = Some [ErrorEvent FailedToSendFrame (Some (Exn ''send failed'')) False,
             ErrorEvent (StaleConnection 50001) None False]
   \<and> map_option state (completed (run envRejectsAll
      [(tickAt 0, Connect optionsWs), (tickAt 5, SocketOpen)] initialClient)) = Some StOpen"
  by (simp add: client_defs url_defs envRejectsAll_def staleThresholdMs_def)

text \<open>
  C5, amended. At a heartbeat tick with the socket open and more than \<open>staleThresholdMs\<close>
  elapsed since the last inbound frame, the probe is sent, exactly one staleness error
  event is emitted and the socket is closed with code 4000. The only other event of the
  tick is the send-failure error of a probe whose transmission throws; when the probe is
  accepted the staleness error is the only error event. Ticks that follow while the
  socket is closing emit nothing, so the episode has one staleness error. The close
  callback then stops the heartbeat, moves to \<open>StClosed\<close>, emits no error, and arms the
  reconnect timer exactly when reconnection is eligible.
\<close>

theorem stale_heartbeat_errors_once_and_forces_close:
  assumes "heartbeatTimer s" "ws s = Some w" "readyState w = WebSocket_OPEN"
    "now tk - lastInboundAt s > staleThresholdMs"
  shows "\<exists>s1 w1. step e tk HeartbeatInterval s = Inr s1
     \<and> emitted s1 = emitted s @ sendFailures e (mockWs s \<noteq> None) [pingFrame (now tk)]
                        @ [ErrorEvent (StaleConnection (now tk - lastInboundAt s)) None False]
     \<and> length (filter isStaleError (drop (length (emitted s)) (emitted s1))) = 1
     \<and> (sendThrows e (pingFrame (now tk)) = None
           \<longrightarrow> length (filter isErrorEvent (drop (length (emitted s)) (emitted s1))) = 1)
     \<and> ws s1 = Some w1 \<and> readyState w1 = 2 \<and> closeCalls w1 = closeCalls w @ [(4000, ''stale'')]
     \<and> sent w1 = sent w @ filter (\<lambda>f. sendThrows e f = None) [pingFrame (now tk)]
     \<and> state s1 = state s \<and> heartbeatTimer s1
     \<and> (\<forall>tk2. step e tk2 HeartbeatInterval s1 = Inr s1)
     \<and> (\<forall>tk3 ev. \<exists>s3. step e tk3 (SocketClose ev) s1 = Inr s3
           \<and> state s3 = StClosed \<and> \<not> heartbeatTimer s3
           \<and> filter isErrorEvent (drop (length (emitted s1)) (emitted s3)) = []
           \<and> (if shouldReconnect s \<and> \<not> explicitlyDisconnected s
               then (\<exists>tm. reconnectTimer s3 = Some tm \<and> pending tm \<and> reason tm = ''close'')
               else reconnectTimer s3 = reconnectTimer s))"
proof -
  let ?w1 = "w\<lparr>sent := sent w @ filter (\<lambda>f. sendThrows e f = None) [pingFrame (now tk)],
                readyState := 2, closeCalls := closeCalls w @ [(4000, ''stale'')]\<rparr>"
  let ?s1 = "s\<lparr>ws := Some ?w1,
           outboundQueue := outboundQueue s @ filter (\<lambda>f. sendThrows e f \<noteq> None) [pingFrame (now tk)],
           emitted := emitted s @ sendFailures e (mockWs s \<noteq> None) [pingFrame (now tk)]
                        @ [ErrorEvent (StaleConnection (now tk - lastInboundAt s)) None False]\<rparr>"
  have st: "step e tk HeartbeatInterval s = Inr ?s1" using heartbeat_stale_tick [OF assms] .
  have ev1: "length (filter isStaleError (drop (length (emitted s)) (emitted ?s1))) = 1"
    by (simp split: option.splits)
  have ev2: "sendThrows e (pingFrame (now tk)) = None
           \<longrightarrow> length (filter isErrorEvent (drop (length (emitted s)) (emitted ?s1))) = 1"
    by simp
  have w1: "ws ?s1 = Some ?w1" "readyState ?w1 \<noteq> WebSocket_OPEN"
    by (simp_all add: WebSocket_OPEN_def)
  have later: "\<forall>tk2. step e tk2 HeartbeatInterval ?s1 = Inr ?s1"
    using heartbeat_tick_not_open [OF w1] by blast
  have cl: "\<forall>tk3 ev. \<exists>s3. step e tk3 (SocketClose ev) ?s1 = Inr s3
           \<and> state s3 = StClosed \<and> \<not> heartbeatTimer s3
           \<and> filter isErrorEvent (drop (length (emitted ?s1)) (emitted s3)) = []
           \<and> (if shouldReconnect s \<and> \<not> explicitlyDisconnected s
               then (\<exists>tm. reconnectTimer s3 = Some tm \<and> pending tm \<and> reason tm = ''close'')
               else reconnectTimer s3 = reconnectTimer s)"
    unfolding socketClose_step [OF w1(1)] by auto
  show ?thesis
    using st ev1 ev2 later cl assms(1) by (intro exI [of _ ?s1] exI [of _ ?w1]) simp
qed

theorem stale_heartbeat_errors_once_and_forces_close_witness:
  "heartbeatTimer exampleOpen \<and> ws exampleOpen = Some (exampleSocket\<lparr>readyState := 1\<rparr>)
   \<and> readyState (exampleSocket\<lparr>readyState := 1\<rparr>) = WebSocket_OPEN
   \<and> now (tickAt 50006) - lastInboundAt exampleOpen > staleThresholdMs
   \<and> (\<exists>s1 w1. step envRejectsB (tickAt 50006) HeartbeatInterval exampleOpen = Inr s1
         \<and> emitted s1 = emitted exampleOpen @ [ErrorEvent (StaleConnection 50001) None False]
         \<and> ws s1 = Some w1 \<and> readyState w1 = 2 \<and> closeCalls w1 = [(4000, ''stale'')]
         \<and> sent w1 = [''{\"type\":\"ping\",\"t\":50006}'']
         \<and> step envRejectsB (tickAt 65006) HeartbeatInterval s1 = Inr s1
         \<and> (\<exists>s3 tm. step envRejectsB (tickAt 65010) (SocketClose None) s1 = Inr s3
               \<and> state s3 = StClosed \<and> reconnectTimer s3 = Some tm \<and> pending tm))"
proof -
  have h: "heartbeatTimer exampleOpen" "ws exampleOpen = Some (exampleSocket\<lparr>readyState := 1\<rparr>)"
    "readyState (exampleSocket\<lparr>readyState := 1\<rparr>) = WebSocket_OPEN"
    "now (tickAt 50006) - lastInboundAt exampleOpen > staleThresholdMs"
    by (simp_all add: exampleOpen_facts WebSocket_OPEN_def tickAt_def staleThresholdMs_def)
  have p: "pingFrame 50006 = ''{\"type\":\"ping\",\"t\":50006}''"
    by (simp add: pingFrame_def digitsOf.simps digitChar_def)
  from stale_heartbeat_errors_once_and_forces_close [OF h, of envRejectsB]
  obtain s1 w1 where
    a: "step envRejectsB (tickAt 50006) HeartbeatInterval exampleOpen = Inr s1"
    "emitted s1 = emitted exampleOpen
        @ sendFailures envRejectsB (mockWs exampleOpen \<noteq> None) [pingFrame (now (tickAt 50006))]
        @ [ErrorEvent (StaleConnection (now (tickAt 50006) - lastInboundAt exampleOpen)) None False]"
    "ws s1 = Some w1" "readyState w1 = 2"
    "closeCalls w1 = closeCalls (exampleSocket\<lparr>readyState := 1\<rparr>) @ [(4000, ''stale'')]"
    "sent w1 = sent (exampleSocket\<lparr>readyState := 1\<rparr>)
        @ filter (\<lambda>f. sendThrows envRejectsB f = None) [pingFrame (now (tickAt 50006))]"
    and b: "\<forall>tk2. step envRejectsB tk2 HeartbeatInterval s1 = Inr s1"
    and c: "\<forall>tk3 ev. \<exists>s3. step envRejectsB tk3 (SocketClose ev) s1 = Inr s3
           \<and> state s3 = StClosed \<and> \<not> heartbeatTimer s3
           \<and> filter isErrorEvent (drop (length (emitted s1)) (emitted s3)) = []
           \<and> (if shouldReconnect exampleOpen \<and> \<not> explicitlyDisconnected exampleOpen
               then (\<exists>tm. reconnectTimer s3 = Some tm \<and> pending tm \<and> reason tm = ''close'')
               else reconnectTimer s3 = reconnectTimer exampleOpen)"
    by blast
  from c obtain s3 tm where
    "step envRejectsB (tickAt 65010) (SocketClose None) s1 = Inr s3" "state s3 = StClosed"
    "reconnectTimer s3 = Some tm" "pending tm"
    using exampleOpen_facts(6,7) by (metis (full_types))
  then show ?thesis using h a b
    by (simp add: exampleOpen_facts tickAt_def p exampleSocket_def envRejectsB_def sendFailures_def)
qed

subsection \<open>Destination resolution\<close>

lemma bareHostPort_no_slash:
  assumes "isBareHostPort raw"
  shows "CHR ''/'' \<notin> set raw" "raw \<noteq> []"
proof -
  have nh: "\<not> isHostChar (CHR ''/'')" "\<not> isDigit (CHR ''/'')"
    by (simp_all add: isHostChar_def isDigit_def charCode_def)
  have t: "CHR ''/'' \<notin> set (takeWhile isHostChar raw)"
    using nh(1) by (auto dest: set_takeWhileD)
  have d: "CHR ''/'' \<notin> set (dropWhile isHostChar raw)"
  proof (cases "dropWhile isHostChar raw")
    case Nil
    show ?thesis unfolding Nil by simp
  next
    case (Cons c ds)
    then have "c = CHR '':''" "list_all isDigit ds"
      using assms by (simp_all add: isBareHostPort_def Let_def)
    then show ?thesis using Cons nh(2) by (auto simp: list_all_iff)
  qed
  have "set raw = set (takeWhile isHostChar raw) \<union> set (dropWhile isHostChar raw)"
    by (metis set_append takeWhile_dropWhile_id)
  then show "CHR ''/'' \<notin> set raw" using t d by simp
  show "raw \<noteq> []" using assms by (auto simp: isBareHostPort_def Let_def)
qed

lemma stripTrailingSlashes_no_slash:
  assumes "CHR ''/'' \<notin> set raw" "raw \<noteq> []"
  shows "stripTrailingSlashes (p @ raw) = p @ raw"
proof -
  from assms(2) obtain c cs where r: "rev raw = c # cs" by (cases "rev raw") auto
  then have "c \<in> set raw" by (metis list.set_intros(1) set_rev)
  then have "c \<noteq> CHR ''/''" using assms(1) by auto
  then show ?thesis using r by (simp add: stripTrailingSlashes_def)
qed

lemma startsWith_iff: "startsWith str p \<longleftrightarrow> (\<exists>r. str = p @ r)"
proof
  assume "startsWith str p"
  then have "str = p @ drop (length p) str"
    by (metis append_take_drop_id startsWith_def)
  then show "\<exists>r. str = p @ r" by blast
next
  assume "\<exists>r. str = p @ r"
  then show "startsWith str p" by (auto simp: startsWith_def)
qed

lemma resolve_ws:
  assumes "startsWith (safeTrim (REACT_APP_WS_URL e)) ''ws://''
           \<or> startsWith (safeTrim (REACT_APP_WS_URL e)) ''wss://''"
  shows "resolveWsBaseUrlFromEnv e = stripTrailingSlashes (safeTrim (REACT_APP_WS_URL e))"
proof -
  have "safeTrim (REACT_APP_WS_URL e) \<noteq> []" using assms by (auto simp: startsWith_iff)
  then show ?thesis using assms by (simp add: resolveWsBaseUrlFromEnv_def Let_def)
qed

lemma resolve_http:
  assumes "startsWith (safeTrim (REACT_APP_WS_URL e)) ''http://''"
  shows "resolveWsBaseUrlFromEnv e
           = stripTrailingSlashes (''ws://'' @ drop 7 (safeTrim (REACT_APP_WS_URL e)))"
proof -
  from assms obtain r where r: "safeTrim (REACT_APP_WS_URL e) = ''http://'' @ r"
    by (auto simp: startsWith_iff)
  show ?thesis unfolding resolveWsBaseUrlFromEnv_def r by (simp add: startsWith_def)
qed

lemma resolve_https:
  assumes "startsWith (safeTrim (REACT_APP_WS_URL e)) ''https://''"
  shows "resolveWsBaseUrlFromEnv e
           = stripTrailingSlashes (''wss://'' @ drop 8 (safeTrim (REACT_APP_WS_URL e)))"
proof -
  from assms obtain r where r: "safeTrim (REACT_APP_WS_URL e) = ''https://'' @ r"
    by (auto simp: startsWith_iff)
  show ?thesis unfolding resolveWsBaseUrlFromEnv_def r by (simp add: startsWith_def)
qed

lemma resolve_bare:
  assumes "isBareHostPort (safeTrim (REACT_APP_WS_URL e))"
  shows "resolveWsBaseUrlFromEnv e = ''ws://'' @ safeTrim (REACT_APP_WS_URL e)"
proof -
  note ns = bareHostPort_no_slash [OF assms]
  have "\<not> startsWith (safeTrim (REACT_APP_WS_URL e)) ''ws://''"
    "\<not> startsWith (safeTrim (REACT_APP_WS_URL e)) ''wss://''"
    "\<not> startsWith (safeTrim (REACT_APP_WS_URL e)) ''http://''"
    "\<not> startsWith (safeTrim (REACT_APP_WS_URL e)) ''https://''"
    using ns(1) by (auto simp: startsWith_iff)
  then show ?thesis
    using assms ns stripTrailingSlashes_no_slash [OF ns, of "''ws://''"]
    by (simp add: resolveWsBaseUrlFromEnv_def Let_def)
qed

text \<open>
  C7, as stated, fails. No address is configured, the page is served from
  \<^verbatim>\<open>http://localhost:3000\<close> and \<^verbatim>\<open>WebSocket\<close> is available: the address inferred from
  the page origin is usable, yet \<^verbatim>\<open>connect\<close> enters mock mode and constructs no socket;
  the inferred address is only recorded in \<^verbatim>\<open>lastUrl\<close>.
\<close>

theorem unconfigured_connect_is_mock_despite_inferred_address:
  "safeTrim (REACT_APP_WS_URL envUnconfigured) = []
   \<and> hasWebSocketSupport envUnconfigured
   \<and> resolveWsBaseUrlFromEnv envUnconfigured = ''ws://localhost:3000''
   \<and> state (connect envUnconfigured (tickAt 0) optionsWs initialClient) = StMock
   \<and> ws (connect envUnconfigured (tickAt 0) optionsWs initialClient) = None
   \<and> mockWs (connect envUnconfigured (tickAt 0) optionsWs initialClient) = Some createMockSocket
   \<and> lastUrl (connect envUnconfigured (tickAt 0) optionsWs initialClient) = ''ws://localhost:3000/ws''"
  by (simp add: client_defs url_defs envUnconfigured_def)

text \<open>
  C7, amended. (a) A configured address is normalised: \<^verbatim>\<open>ws://\<close> and \<^verbatim>\<open>wss://\<close> are
  kept, \<^verbatim>\<open>http://\<close> becomes \<^verbatim>\<open>ws://\<close>, \<^verbatim>\<open>https://\<close> becomes \<^verbatim>\<open>wss://\<close>, a bare
  \<^verbatim>\<open>host:port\<close> gets \<^verbatim>\<open>ws://\<close> in front. (b) If no address is configured, the address
  inferred from the page origin is only recorded as the reported address and the
  connection is the mock. (c) \<^verbatim>\<open>connect\<close> falls back to the mock exactly when no address
  is configured, or network support is unavailable, or the resolved address is empty;
  otherwise it constructs a real socket for the resolved address.
\<close>

theorem connect_destination_resolution:
  "((startsWith (safeTrim (REACT_APP_WS_URL e)) ''ws://''
       \<or> startsWith (safeTrim (REACT_APP_WS_URL e)) ''wss://'')
      \<longrightarrow> resolveWsBaseUrlFromEnv e = stripTrailingSlashes (safeTrim (REACT_APP_WS_URL e)))
   \<and> (startsWith (safeTrim (REACT_APP_WS_URL e)) ''http://''
      \<longrightarrow> resolveWsBaseUrlFromEnv e
            = stripTrailingSlashes (''ws://'' @ drop 7 (safeTrim (REACT_APP_WS_URL e))))
   \<and> (startsWith (safeTrim (REACT_APP_WS_URL e)) ''https://''
      \<longrightarrow> resolveWsBaseUrlFromEnv e
            = stripTrailingSlashes (''wss://'' @ drop 8 (safeTrim (REACT_APP_WS_URL e))))
   \<and> (isBareHostPort (safeTrim (REACT_APP_WS_URL e))
      \<longrightarrow> resolveWsBaseUrlFromEnv e = ''ws://'' @ safeTrim (REACT_APP_WS_URL e))
   \<and> lastUrl (connect e tk options s)
        = joinUrl (resolveWsBaseUrlFromEnv e) (case path options of Some p \<Rightarrow> p | None \<Rightarrow> [])
   \<and> (state (connect e tk options s) = StMock
        \<longleftrightarrow> safeTrim (REACT_APP_WS_URL e) = [] \<or> \<not> hasWebSocketSupport e
            \<or> joinUrl (resolveWsBaseUrlFromEnv e) (case path options of Some p \<Rightarrow> p | None \<Rightarrow> []) = [])
   \<and> (state (connect e tk options s) = StMock
        \<longrightarrow> ws (connect e tk options s) = None
            \<and> mockWs (connect e tk options s) = Some createMockSocket)
   \<and> (state (connect e tk options s) \<noteq> StMock
        \<longrightarrow> mockWs (connect e tk options s) = None
            \<and> (case constructorThrows e (lastUrl (connect e tk options s)) of
                  None \<Rightarrow> state (connect e tk options s) = StConnecting
                          \<and> ws (connect e tk options s)
                              = Some \<lparr>url = lastUrl (connect e tk options s),
                                      protocolsArg = protocols options, readyState = 0,
                                      sent = [], closeCalls = []\<rparr>
                | Some x \<Rightarrow> state (connect e tk options s) = StError
                            \<and> ws (connect e tk options s) = None))"
proof -
  let ?u = "joinUrl (resolveWsBaseUrlFromEnv e) (case path options of Some p \<Rightarrow> p | None \<Rightarrow> [])"
  let ?s = "(clearReconnectTimer s)\<lparr>connectOptions := options, explicitlyDisconnected := False\<rparr>"
  have c: "connect e tk options s = internalConnect e tk options ?s"
    by (simp add: connect_def Let_def)
  have rest: "lastUrl (connect e tk options s) = ?u
   \<and> (state (connect e tk options s) = StMock
        \<longleftrightarrow> safeTrim (REACT_APP_WS_URL e) = [] \<or> \<not> hasWebSocketSupport e \<or> ?u = [])
   \<and> (state (connect e tk options s) = StMock
        \<longrightarrow> ws (connect e tk options s) = None
            \<and> mockWs (connect e tk options s) = Some createMockSocket)
   \<and> (state (connect e tk options s) \<noteq> StMock
        \<longrightarrow> mockWs (connect e tk options s) = None
            \<and> (case constructorThrows e (lastUrl (connect e tk options s)) of
                  None \<Rightarrow> state (connect e tk options s) = StConnecting
                          \<and> ws (connect e tk options s)
                              = Some \<lparr>url = lastUrl (connect e tk options s),
                                      protocolsArg = protocols options, readyState = 0,
                                      sent = [], closeCalls = []\<rparr>
                | Some x \<Rightarrow> state (connect e tk options s) = StError
                            \<and> ws (connect e tk options s) = None))"
  proof (cases "hasWebSocketSupport e \<and> ?u \<noteq> [] \<and> safeTrim (REACT_APP_WS_URL e) \<noteq> []")
    case False
    then have m: "\<not> hasWebSocketSupport e \<or> ?u = [] \<or> safeTrim (REACT_APP_WS_URL e) = []" by blast
    show ?thesis unfolding c internalConnect_mock [OF m] using False by auto
  next
    case True
    then have r: "hasWebSocketSupport e" "?u = ?u" "?u \<noteq> []" "safeTrim (REACT_APP_WS_URL e) \<noteq> []"
      by simp_all
    show ?thesis unfolding c internalConnect_real [OF r]
      using True by (cases "constructorThrows e ?u") (simp_all add: Let_def)
  qed
  show ?thesis
    using resolve_ws [of e] resolve_http [of e] resolve_https [of e] resolve_bare [of e] rest
    by blast
qed

theorem connect_destination_resolution_witness:
  "startsWith (safeTrim (REACT_APP_WS_URL envConfigured)) ''http://''
   \<and> resolveWsBaseUrlFromEnv envConfigured = ''ws://example.test''
   \<and> state (connect envConfigured (tickAt 0) optionsWs initialClient) = StConnecting
   \<and> ws (connect envConfigured (tickAt 0) optionsWs initialClient)
        = Some \<lparr>url = ''ws://example.test/ws'', protocolsArg = None, readyState = 0,
                sent = [], closeCalls = []\<rparr>
   \<and> mockWs (connect envConfigured (tickAt 0) optionsWs initialClient) = None"
proof -
  have raw: "safeTrim (REACT_APP_WS_URL envConfigured) = ''http://example.test/''"
    by (simp add: envConfigured_def safeTrim_def trim_def isWhite_def)
  have h: "startsWith (safeTrim (REACT_APP_WS_URL envConfigured)) ''http://''"
    unfolding raw by (simp add: startsWith_def)
  have sup: "hasWebSocketSupport envConfigured"
    by (simp add: envConfigured_def hasWebSocketSupport_def exampleWindow_def)
  have ct: "\<And>u. constructorThrows envConfigured u = None" by (simp add: envConfigured_def)
  note t = connect_destination_resolution [of envConfigured "tickAt 0" optionsWs initialClient]
  from t h have r: "resolveWsBaseUrlFromEnv envConfigured
      = stripTrailingSlashes (''ws://'' @ drop 7 (safeTrim (REACT_APP_WS_URL envConfigured)))"
    by blast
  have r1: "resolveWsBaseUrlFromEnv envConfigured = ''ws://example.test''"
    unfolding r raw by (simp add: stripTrailingSlashes_def)
  have u: "joinUrl (resolveWsBaseUrlFromEnv envConfigured)
             (case path optionsWs of Some p \<Rightarrow> p | None \<Rightarrow> []) = ''ws://example.test/ws''"
    unfolding r1 by (simp add: optionsWs_def joinUrl_def trim_def isWhite_def stripTrailingSlashes_def
        startsWith_def)
  from t have lu: "lastUrl (connect envConfigured (tickAt 0) optionsWs initialClient)
      = ''ws://example.test/ws''" unfolding u by blast
  from t have nm: "state (connect envConfigured (tickAt 0) optionsWs initialClient) \<noteq> StMock"
    unfolding u raw using sup by simp
  from t nm have "mockWs (connect envConfigured (tickAt 0) optionsWs initialClient) = None
     \<and> state (connect envConfigured (tickAt 0) optionsWs initialClient) = StConnecting
     \<and> ws (connect envConfigured (tickAt 0) optionsWs initialClient)
          = Some \<lparr>url = lastUrl (connect envConfigured (tickAt 0) optionsWs initialClient),
                  protocolsArg = protocols optionsWs, readyState = 0, sent = [], closeCalls = []\<rparr>"
    by (simp add: ct)
  then show ?thesis using h r1 lu by (simp add: optionsWs_def)
qed

subsection \<open>Flush on open\<close>

lemma internalConnect_not_open:
  "\<not> transportIsOpen (internalConnect e tk options s)"
  "outboundQueue (internalConnect e tk options s) = outboundQueue s"
proof -
  let ?u = "joinUrl (resolveWsBaseUrlFromEnv e) (case path options of Some p \<Rightarrow> p | None \<Rightarrow> [])"
  have "\<not> transportIsOpen (internalConnect e tk options s)
        \<and> outboundQueue (internalConnect e tk options s) = outboundQueue s"
  proof (cases "hasWebSocketSupport e \<and> ?u \<noteq> [] \<and> safeTrim (REACT_APP_WS_URL e) \<noteq> []")
    case False
    then have m: "\<not> hasWebSocketSupport e \<or> ?u = [] \<or> safeTrim (REACT_APP_WS_URL e) = []" by blast
    show ?thesis unfolding internalConnect_mock [OF m]
      by (simp add: transportIsOpen_def createMockSocket_def mockReadyState_def)
  next
    case True
    then have r: "hasWebSocketSupport e" "?u = ?u" "?u \<noteq> []" "safeTrim (REACT_APP_WS_URL e) \<noteq> []"
      by simp_all
    show ?thesis unfolding internalConnect_real [OF r]
      by (cases "constructorThrows e ?u")
         (simp_all add: Let_def transportIsOpen_def WebSocket_OPEN_def)
  qed
  then show "\<not> transportIsOpen (internalConnect e tk options s)"
    "outboundQueue (internalConnect e tk options s) = outboundQueue s" by simp_all
qed

text \<open>While no transport is open, a step that opens none keeps it so, and only a call
  of \<^verbatim>\<open>send\<close> changes the queue: \<^verbatim>\<open>connect\<close>, \<^verbatim>\<open>disconnect\<close>, the timers and the
  callbacks leave the queued frames as they are.\<close>

lemma not_open_step:
  assumes "\<not> transportIsOpen s" "\<not> isOpening a"
  shows "\<exists>s1. step e tk a s = Inr s1 \<and> \<not> transportIsOpen s1
     \<and> outboundQueue s1 = (case submittedFrame a of None \<Rightarrow> outboundQueue s
          | Some f \<Rightarrow> (if length (outboundQueue s) \<ge> maxQueueSize
                       then sliceLast keptOnOverflow (outboundQueue s) else outboundQueue s) @ [f])"
proof (cases a)
  case (Connect options)
  then show ?thesis
    using internalConnect_not_open [of e tk options]
    by (simp add: step_def connect_def Let_def clearReconnectTimer_eq)
next
  case Disconnect
  then show ?thesis by (simp add: step_def disconnect_eq transportIsOpen_def)
next
  case (Send msg)
  from send_not_open [OF assms(1), of e msg] obtain s1 where
    "send e msg s = Inr s1"
    "outboundQueue s1 = (case frameOf msg of None \<Rightarrow> outboundQueue s
          | Some f \<Rightarrow> (if length (outboundQueue s) \<ge> maxQueueSize
                       then sliceLast keptOnOverflow (outboundQueue s) else outboundQueue s) @ [f])"
    "ws s1 = ws s" "mockWs s1 = mockWs s" by blast
  then show ?thesis using Send assms(1) by (simp add: step_def transportIsOpen_def)
next
  case MockOpenTimeout
  then show ?thesis using assms(2) by simp
next
  case MockEchoTimeout
  then show ?thesis using assms(1)
    by (auto simp: step_def mockEchoTimeout_def transportIsOpen_def mockReadyState_def Let_def
        split: option.splits list.splits if_splits)
next
  case ReconnectTimeout
  then show ?thesis using assms(1) internalConnect_not_open [of e tk]
    by (simp add: step_def reconnectTimeout_def Let_def split: option.splits)
next
  case HeartbeatInterval
  then show ?thesis using assms(1)
    by (auto simp: step_def heartbeatCallback_def transportIsOpen_def Let_def split: option.splits)
next
  case SocketOpen
  then show ?thesis using assms(2) by simp
next
  case (SocketClose ev)
  show ?thesis
  proof (cases "ws s")
    case None
    then show ?thesis using SocketClose assms(1) by (simp add: step_def)
  next
    case (Some w)
    show ?thesis unfolding SocketClose socketClose_step [OF Some]
      using assms(1) Some by (simp add: transportIsOpen_def WebSocket_OPEN_def)
  qed
next
  case (SocketError ev)
  then show ?thesis using assms(1)
    by (simp add: step_def ws_onerror_def Let_def transportIsOpen_def split: option.splits)
next
  case (SocketMessage raw)
  then show ?thesis using assms(1)
    by (simp add: step_def ws_onmessage_def Let_def transportIsOpen_def split: option.splits)
qed

lemma submitted_Cons:
  "submitted (ta # steps) = (case submittedFrame (snd ta) of None \<Rightarrow> [] | Some f \<Rightarrow> [f]) @ submitted steps"
  by (simp add: submitted_def map_filter_simps split: option.splits)

lemma not_open_run:
  assumes "\<not> transportIsOpen s" "\<forall>ta \<in> set steps. \<not> isOpening (snd ta)"
  shows "\<exists>s1. run e steps s = Inr s1 \<and> \<not> transportIsOpen s1
     \<and> suffix (outboundQueue s1) (outboundQueue s @ submitted steps)
     \<and> (length (outboundQueue s) + length (submitted steps) \<le> maxQueueSize
          \<longrightarrow> outboundQueue s1 = outboundQueue s @ submitted steps)"
  using assms
proof (induction steps arbitrary: s)
  case Nil
  then show ?case by (simp add: submitted_def map_filter_simps)
next
  case (Cons ta steps)
  obtain tk a where ta: "ta = (tk, a)" by (cases ta)
  from Cons.prems ta have na: "\<not> isOpening a" by simp
  from not_open_step [OF Cons.prems(1) na, of e tk] obtain s0 where
    s0: "step e tk a s = Inr s0" and n0: "\<not> transportIsOpen s0"
    and q0: "outboundQueue s0 = (case submittedFrame a of None \<Rightarrow> outboundQueue s
          | Some f \<Rightarrow> (if length (outboundQueue s) \<ge> maxQueueSize
                       then sliceLast keptOnOverflow (outboundQueue s) else outboundQueue s) @ [f])"
    by blast
  from Cons.prems have "\<forall>ta \<in> set steps. \<not> isOpening (snd ta)" by simp
  from Cons.IH [OF n0 this] obtain s1 where
    r1: "run e steps s0 = Inr s1" and n1: "\<not> transportIsOpen s1"
    and sf: "suffix (outboundQueue s1) (outboundQueue s0 @ submitted steps)"
    and eq: "length (outboundQueue s0) + length (submitted steps) \<le> maxQueueSize
          \<longrightarrow> outboundQueue s1 = outboundQueue s0 @ submitted steps" by blast
  have r: "run e (ta # steps) s = Inr s1" using ta s0 r1 by (simp add: andThen_def)
  have fr: "submitted (ta # steps)
      = (case submittedFrame a of None \<Rightarrow> [] | Some f \<Rightarrow> [f]) @ submitted steps"
    using ta by (simp add: submitted_Cons)
  have sf0: "suffix (outboundQueue s0 @ submitted steps) (outboundQueue s @ submitted (ta # steps))"
    unfolding fr q0 by (auto split: option.splits simp: suffix_sliceLast)
  have "suffix (outboundQueue s1) (outboundQueue s @ submitted (ta # steps))"
    using sf sf0 by (rule suffix_order.trans)
  moreover have "length (outboundQueue s) + length (submitted (ta # steps)) \<le> maxQueueSize
          \<longrightarrow> outboundQueue s1 = outboundQueue s @ submitted (ta # steps)"
    using eq unfolding fr q0 by (auto split: option.splits)
  ultimately show ?case using r n1 by simp
qed

text \<open>Every transition into \<open>StOpen\<close> is made by the socket's open callback and carries
  one flush: each frame of the queue is handed to the socket once, in order; the accepted
  ones are appended to what the socket has sent, each rejected one gives one error event
  and is queued again.\<close>

lemma enters_open_flushes_once:
  assumes "step e tk a s = Inr s1" "state s1 = StOpen" "state s \<noteq> StOpen"
  shows "a = SocketOpen \<and> (\<exists>w. ws s = Some w
     \<and> ws s1 = Some (w\<lparr>readyState := WebSocket_OPEN,
                        sent := sent w @ filter (\<lambda>f. sendThrows e f = None) (outboundQueue s)\<rparr>)
     \<and> outboundQueue s1 = filter (\<lambda>f. sendThrows e f \<noteq> None) (outboundQueue s)
     \<and> emitted s1 = emitted s @ [StatusEvent StOpen (orNull (lastUrl s)) False,
                                  OpenEvent (Some (url w)) (protocolsArg w) False]
                       @ sendFailures e (mockWs s \<noteq> None) (outboundQueue s))"
proof -
  have a: "a = SocketOpen" using enters_open_only_by_socket_open [OF assms] .
  have "ws s \<noteq> None"
  proof
    assume "ws s = None"
    then have "step e tk a s = Inr s" using a by (simp add: step_def)
    then show False using assms by simp
  qed
  then obtain w where w: "ws s = Some w" by auto
  from socketOpen_step [OF w, of e tk] assms(1) a w show ?thesis by auto
qed

text \<open>
  C2, amended. Take any state in which no transport is open and any sequence of steps
  that opens none: calls of \<^verbatim>\<open>send\<close> with or without a socket attached, \<^verbatim>\<open>connect\<close>,
  \<^verbatim>\<open>disconnect\<close>, reconnects, callbacks. The queue then holds the submitted frames in
  submission order (the newest ones when older ones were dropped for capacity). When the
  attached socket opens, the flush hands the queued frames to it in that order, each
  once; afterwards the queue holds exactly the frames whose transmission threw, so it is
  empty when the transport accepts every frame. Every transition into \<open>StOpen\<close> is made by
  the socket's open callback and carries exactly this one flush.
\<close>

theorem queued_frames_flushed_in_order_on_open:
  assumes "\<not> transportIsOpen s" "\<forall>ta \<in> set steps. \<not> isOpening (snd ta)"
  shows "\<exists>s1. run e steps s = Inr s1 \<and> \<not> transportIsOpen s1
     \<and> suffix (outboundQueue s1) (outboundQueue s @ submitted steps)
     \<and> (length (outboundQueue s) + length (submitted steps) \<le> maxQueueSize
          \<longrightarrow> outboundQueue s1 = outboundQueue s @ submitted steps)
     \<and> (\<forall>w1. ws s1 = Some w1 \<longrightarrow>
          (\<exists>s2. step e tk SocketOpen s1 = Inr s2 \<and> state s2 = StOpen
             \<and> ws s2 = Some (w1\<lparr>readyState := WebSocket_OPEN,
                    sent := sent w1 @ filter (\<lambda>f. sendThrows e f = None) (outboundQueue s1)\<rparr>)
             \<and> outboundQueue s2 = filter (\<lambda>f. sendThrows e f \<noteq> None) (outboundQueue s1)
             \<and> emitted s2 = emitted s1 @ [StatusEvent StOpen (orNull (lastUrl s1)) False,
                                           OpenEvent (Some (url w1)) (protocolsArg w1) False]
                                @ sendFailures e (mockWs s1 \<noteq> None) (outboundQueue s1)
             \<and> ((\<forall>f \<in> set (outboundQueue s1). sendThrows e f = None) \<longrightarrow> outboundQueue s2 = [])))
     \<and> (\<forall>tk1 a s3 s4. step e tk1 a s3 = Inr s4 \<and> state s4 = StOpen \<and> state s3 \<noteq> StOpen \<longrightarrow>
          a = SocketOpen \<and> (\<exists>w3. ws s3 = Some w3
             \<and> ws s4 = Some (w3\<lparr>readyState := WebSocket_OPEN,
                    sent := sent w3 @ filter (\<lambda>f. sendThrows e f = None) (outboundQueue s3)\<rparr>)
             \<and> outboundQueue s4 = filter (\<lambda>f. sendThrows e f \<noteq> None) (outboundQueue s3)
             \<and> emitted s4 = emitted s3 @ [StatusEvent StOpen (orNull (lastUrl s3)) False,
                                           OpenEvent (Some (url w3)) (protocolsArg w3) False]
                                @ sendFailures e (mockWs s3 \<noteq> None) (outboundQueue s3)))"
proof -
  from not_open_run [OF assms, of e] obtain s1 where
    r: "run e steps s = Inr s1" and n: "\<not> transportIsOpen s1"
    and sf: "suffix (outboundQueue s1) (outboundQueue s @ submitted steps)"
    and eq: "length (outboundQueue s) + length (submitted steps) \<le> maxQueueSize
          \<longrightarrow> outboundQueue s1 = outboundQueue s @ submitted steps" by blast
  have op: "\<forall>w1. ws s1 = Some w1 \<longrightarrow>
          (\<exists>s2. step e tk SocketOpen s1 = Inr s2 \<and> state s2 = StOpen
             \<and> ws s2 = Some (w1\<lparr>readyState := WebSocket_OPEN,
                    sent := sent w1 @ filter (\<lambda>f. sendThrows e f = None) (outboundQueue s1)\<rparr>)
             \<and> outboundQueue s2 = filter (\<lambda>f. sendThrows e f \<noteq> None) (outboundQueue s1)
             \<and> emitted s2 = emitted s1 @ [StatusEvent StOpen (orNull (lastUrl s1)) False,
                                           OpenEvent (Some (url w1)) (protocolsArg w1) False]
                                @ sendFailures e (mockWs s1 \<noteq> None) (outboundQueue s1)
             \<and> ((\<forall>f \<in> set (outboundQueue s1). sendThrows e f = None) \<longrightarrow> outboundQueue s2 = []))"
  proof (intro allI impI)
    fix w1 assume w1: "ws s1 = Some w1"
    from socketOpen_step [OF w1, of e tk] obtain s2 where
      st: "step e tk SocketOpen s1 = Inr s2"
      and w2: "ws s2 = Some (w1\<lparr>readyState := WebSocket_OPEN,
                        sent := sent w1 @ filter (\<lambda>f. sendThrows e f = None) (outboundQueue s1)\<rparr>)"
      and q2: "outboundQueue s2 = filter (\<lambda>f. sendThrows e f \<noteq> None) (outboundQueue s1)"
      and o2: "state s2 = StOpen"
      and e2: "emitted s2 = emitted s1 @ [StatusEvent StOpen (orNull (lastUrl s1)) False,
                                  OpenEvent (Some (url w1)) (protocolsArg w1) False]
                       @ sendFailures e (mockWs s1 \<noteq> None) (outboundQueue s1)" by blast
    have "(\<forall>f \<in> set (outboundQueue s1). sendThrows e f = None) \<longrightarrow> outboundQueue s2 = []"
      unfolding q2 by (simp add: filter_empty_conv)
    then show "\<exists>s2. step e tk SocketOpen s1 = Inr s2 \<and> state s2 = StOpen
             \<and> ws s2 = Some (w1\<lparr>readyState := WebSocket_OPEN,
                    sent := sent w1 @ filter (\<lambda>f. sendThrows e f = None) (outboundQueue s1)\<rparr>)
             \<and> outboundQueue s2 = filter (\<lambda>f. sendThrows e f \<noteq> None) (outboundQueue s1)
             \<and> emitted s2 = emitted s1 @ [StatusEvent StOpen (orNull (lastUrl s1)) False,
                                           OpenEvent (Some (url w1)) (protocolsArg w1) False]
                                @ sendFailures e (mockWs s1 \<noteq> None) (outboundQueue s1)
             \<and> ((\<forall>f \<in> set (outboundQueue s1). sendThrows e f = None) \<longrightarrow> outboundQueue s2 = [])"
      using st w2 q2 o2 e2 by blast
  qed
  have only: "\<forall>tk1 a s3 s4. step e tk1 a s3 = Inr s4 \<and> state s4 = StOpen \<and> state s3 \<noteq> StOpen \<longrightarrow>
          a = SocketOpen \<and> (\<exists>w3. ws s3 = Some w3
             \<and> ws s4 = Some (w3\<lparr>readyState := WebSocket_OPEN,
                    sent := sent w3 @ filter (\<lambda>f. sendThrows e f = None) (outboundQueue s3)\<rparr>)
             \<and> outboundQueue s4 = filter (\<lambda>f. sendThrows e f \<noteq> None) (outboundQueue s3)
             \<and> emitted s4 = emitted s3 @ [StatusEvent StOpen (orNull (lastUrl s3)) False,
                                           OpenEvent (Some (url w3)) (protocolsArg w3) False]
                                @ sendFailures e (mockWs s3 \<noteq> None) (outboundQueue s3))"
    using enters_open_flushes_once by blast
  show ?thesis using r n sf eq op only by blast
qed

lemma exampleBeforeOpen_run:
  "map_option ws (completed (run envRejectsB exampleBeforeOpen initialClient)) = Some (Some exampleSocket)"
  "map_option mockWs (completed (run envRejectsB exampleBeforeOpen initialClient)) = Some None"
  "map_option reconnectAttempt (completed (run envRejectsB exampleBeforeOpen initialClient)) = Some 1"
  by (simp_all add: exampleBeforeOpen_def exampleSocket_def client_defs url_defs envRejectsB_def
      jitterDelay_def reconnectMaxMs_def reconnectInitialMs_def reconnectJitterRatio_def)

theorem queued_frames_flushed_in_order_on_open_witness:
  "\<not> transportIsOpen initialClient
   \<and> list_all (\<lambda>ta. \<not> isOpening (snd ta)) exampleBeforeOpen
   \<and> (\<exists>s1 s2. run envRejectsB exampleBeforeOpen initialClient = Inr s1
         \<and> outboundQueue s1 = [''a'', ''b'', ''c''] \<and> ws s1 = Some exampleSocket
         \<and> step envRejectsB (tickAt 700) SocketOpen s1 = Inr s2 \<and> state s2 = StOpen
         \<and> sentFrames s2 = [''a'', ''c''] \<and> outboundQueue s2 = [''b'']
         \<and> filter isErrorEvent (drop (length (emitted s1)) (emitted s2))
             = [ErrorEvent FailedToSendFrame (Some (Exn ''send failed'')) False])"
proof -
  have h: "\<not> transportIsOpen initialClient" "\<forall>ta \<in> set exampleBeforeOpen. \<not> isOpening (snd ta)"
    by (simp_all add: transportIsOpen_def initialClient_def exampleBeforeOpen_def)
  have sb: "submitted exampleBeforeOpen = [''a'', ''b'', ''c'']"
    by (simp add: submitted_def exampleBeforeOpen_def map_filter_simps)
  from queued_frames_flushed_in_order_on_open [OF h, of envRejectsB "tickAt 700"]
  obtain s1 where
    r: "run envRejectsB exampleBeforeOpen initialClient = Inr s1"
    and eq: "length (outboundQueue initialClient) + length (submitted exampleBeforeOpen) \<le> maxQueueSize
          \<longrightarrow> outboundQueue s1 = outboundQueue initialClient @ submitted exampleBeforeOpen"
    and op: "\<forall>w1. ws s1 = Some w1 \<longrightarrow>
          (\<exists>s2. step envRejectsB (tickAt 700) SocketOpen s1 = Inr s2 \<and> state s2 = StOpen
             \<and> ws s2 = Some (w1\<lparr>readyState := WebSocket_OPEN,
                    sent := sent w1 @ filter (\<lambda>f. sendThrows envRejectsB f = None) (outboundQueue s1)\<rparr>)
             \<and> outboundQueue s2 = filter (\<lambda>f. sendThrows envRejectsB f \<noteq> None) (outboundQueue s1)
             \<and> emitted s2 = emitted s1 @ [StatusEvent StOpen (orNull (lastUrl s1)) False,
                                           OpenEvent (Some (url w1)) (protocolsArg w1) False]
                                @ sendFailures envRejectsB (mockWs s1 \<noteq> None) (outboundQueue s1)
             \<and> ((\<forall>f \<in> set (outboundQueue s1). sendThrows envRejectsB f = None)
                  \<longrightarrow> outboundQueue s2 = []))"
    by blast
  have q1: "outboundQueue s1 = [''a'', ''b'', ''c'']"
    using eq sb by (simp add: initialClient_def maxQueueSize_def)
  have w1: "ws s1 = Some exampleSocket" and m1: "mockWs s1 = None"
    using exampleBeforeOpen_run(1,2) unfolding r by (simp_all add: completed_def)
  from op w1 obtain s2 where
    "step envRejectsB (tickAt 700) SocketOpen s1 = Inr s2" "state s2 = StOpen"
    "ws s2 = Some (exampleSocket\<lparr>readyState := WebSocket_OPEN,
         sent := sent exampleSocket @ filter (\<lambda>f. sendThrows envRejectsB f = None) (outboundQueue s1)\<rparr>)"
    "outboundQueue s2 = filter (\<lambda>f. sendThrows envRejectsB f \<noteq> None) (outboundQueue s1)"
    "emitted s2 = emitted s1 @ [StatusEvent StOpen (orNull (lastUrl s1)) False,
                                OpenEvent (Some (url exampleSocket)) (protocolsArg exampleSocket) False]
                     @ sendFailures envRejectsB (mockWs s1 \<noteq> None) (outboundQueue s1)"
    by blast
  then show ?thesis using h r q1 w1 m1
    by (simp add: list_all_iff sentFrames_def exampleSocket_def envRejectsB_def sendFailures_def)
qed

end
